theory Spec2Isabelle
  imports Main "HOL-Library.Word" "HOL-Library.AList" "HOL-Library.Product_Lexorder"
begin

section \<open>The secondary-interface monitor of airobot (\<open>ur_tcp_util.py\<close>)\<close>

text \<open>
  The theory embeds \<open>ParserUtils\<close> (\<open>parse\<close>, \<open>_get_data\<close>, \<open>get_header\<close>,
  \<open>analyze_header\<close>, \<open>find_first_packet\<close>) and the sequential behaviour of
  \<open>SecondaryMonitor\<close> (\<open>send_program\<close>, one iteration of \<open>run\<close>,
  \<open>check_if_running\<close>, \<open>_get_data\<close> and the getters).
  A Python exception is a value \<open>Inl e\<close>; a Python \<open>dict\<close> is an association list
  (insertion order kept, a later store to the same key overwrites in place).
  Calls to the logger return nothing and change no state, so they are left out.
\<close>

subsection \<open>Bytes, values and exceptions\<close>

type_synonym byte = "8 word"

datatype error = ParsingException | StructError | KeyError | TypeError | ValueError

text \<open>
  The values \<open>struct.unpack\<close> produces. A float is kept as the big-endian IEEE-754 bytes it
  was read from (4 for \<open>f\<close>, 8 for \<open>d\<close>).
\<close>

datatype pyval = VInt int | VBool bool | VFloat "byte list" | VBytes "byte list"

type_synonym pydict = "(string \<times> pyval) list"
type_synonym alldata = "(string \<times> pydict) list"
type_synonym version = "nat \<times> nat"

subsection \<open>\<open>struct\<close>: sizes and decoding of one format character\<close>

text \<open>
  \<open>calcsize\<close> and \<open>unpack\<close> cover the format characters that occur in the format
  strings of \<open>parse\<close> (\<open>i I B b c ? Q d f h\<close>), the only caller of \<open>_get_data\<close>; any
  other character is reported as \<open>struct.error\<close>.
\<close>

definition be_unsigned :: "byte list \<Rightarrow> int" where
  "be_unsigned bs = foldl (\<lambda>acc b. acc * 256 + uint b) 0 bs"

definition be_signed :: "byte list \<Rightarrow> int" where
  "be_signed bs =
     (let n = be_unsigned bs; w = 8 * length bs
      in if n < 2 ^ (w - 1) then n else n - 2 ^ w)"

definition calcsize :: "char \<Rightarrow> nat option" where
  "calcsize f =
     (if f = CHR ''i'' \<or> f = CHR ''I'' \<or> f = CHR ''f'' then Some 4
      else if f = CHR ''B'' \<or> f = CHR ''b'' \<or> f = CHR ''c'' \<or> f = CHR ''?'' then Some 1
      else if f = CHR ''Q'' \<or> f = CHR ''d'' then Some 8
      else if f = CHR ''h'' then Some 2
      else None)"

text \<open>\<open>struct.unpack("!" + f, bs)[0]\<close> for \<open>bs\<close> of length \<open>calcsize f\<close>.\<close>

definition unpack :: "char \<Rightarrow> byte list \<Rightarrow> pyval" where
  "unpack f bs =
     (if f = CHR ''i'' \<or> f = CHR ''b'' \<or> f = CHR ''h'' then VInt (be_signed bs)
      else if f = CHR ''I'' \<or> f = CHR ''B'' \<or> f = CHR ''Q'' then VInt (be_unsigned bs)
      else if f = CHR ''?'' then VBool (be_unsigned bs \<noteq> 0)
      else if f = CHR ''c'' then VBytes bs
      else VFloat bs)"

subsection \<open>Python string and slice helpers\<close>

text \<open>The characters below 256 that \<open>str.strip()\<close> removes.\<close>

definition is_space :: "char \<Rightarrow> bool" where
  "is_space c =
     (c \<in> set [CHR '' '', CHR 0x09, CHR 0x0A, CHR 0x0B, CHR 0x0C, CHR 0x0D,
                CHR 0x1C, CHR 0x1D, CHR 0x1E, CHR 0x1F, CHR 0x85, CHR 0xA0])"

definition strip :: "string \<Rightarrow> string" where
  "strip s = rev (dropWhile is_space (rev (dropWhile is_space s)))"

definition endswith :: "string \<Rightarrow> string \<Rightarrow> bool" where
  "endswith s suf = (length suf \<le> length s \<and> drop (length s - length suf) s = suf)"

text \<open>\<open>xs[0:n]\<close> and \<open>xs[n:]\<close>; a negative \<open>n\<close> counts from the end.\<close>

definition slice_to :: "'a list \<Rightarrow> int \<Rightarrow> 'a list" where
  "slice_to xs n = (if 0 \<le> n then take (nat n) xs else take (nat (int (length xs) + n)) xs)"

definition slice_from :: "'a list \<Rightarrow> int \<Rightarrow> 'a list" where
  "slice_from xs n = (if 0 \<le> n then drop (nat n) xs else drop (nat (int (length xs) + n)) xs)"

text \<open>A value used as a slice bound or as an operand of \<open>&\<close>: an \<open>int\<close> (or a \<open>bool\<close>);
  anything else is a TypeError.\<close>

fun as_int :: "pyval \<Rightarrow> error + int" where
  "as_int (VInt n) = Inr n"
| "as_int (VBool b) = Inr (if b then 1 else 0)"
| "as_int _ = Inl TypeError"

text \<open>\<open>key_names[i - 1]\<close>: index \<open>-1\<close> is the last element.\<close>

definition prev_name :: "string list \<Rightarrow> nat \<Rightarrow> string" where
  "prev_name key_names i = key_names ! (if i = 0 then length key_names - 1 else i - 1)"

subsection \<open>\<open>ParserUtils._get_data\<close>\<close>

function get_data_loop ::
  "string \<Rightarrow> string list \<Rightarrow> byte list \<Rightarrow> pydict \<Rightarrow> nat \<Rightarrow> nat \<Rightarrow> error + pydict" where
  "get_data_loop fmt key_names tmpdata d i j =
     (if j < length fmt \<and> i < length key_names then
        (if fmt ! j = CHR '' '' \<or> fmt ! j = CHR ''!'' \<or> fmt ! j = CHR ''>'' \<or> fmt ! j = CHR ''<''
         then get_data_loop fmt key_names tmpdata d i (j + 1)
         else if fmt ! j = CHR ''A'' then
           (case (if j + 2 = length fmt then Inr (int (length tmpdata))
                  else if \<not> endswith (prev_name key_names i) ''Size'' then Inl ParsingException
                  else (case map_of d (prev_name key_names i) of
                          None \<Rightarrow> Inl KeyError
                        | Some v \<Rightarrow> as_int v)) of
              Inl e \<Rightarrow> Inl e
            | Inr arraysize \<Rightarrow>
                get_data_loop fmt key_names (slice_from tmpdata arraysize)
                  (AList.update (key_names ! i) (VBytes (slice_to tmpdata arraysize)) d)
                  (i + 1) (j + 2))
         else
           (case calcsize (fmt ! j) of
              None \<Rightarrow> Inl StructError
            | Some fmtsize \<Rightarrow>
                if length tmpdata < fmtsize then Inl ParsingException
                else get_data_loop fmt key_names (drop fmtsize tmpdata)
                       (AList.update (key_names ! i) (unpack (fmt ! j) (take fmtsize tmpdata)) d)
                       (i + 1) (j + 1)))
      else Inr d)"
  by pat_completeness auto
termination
  by (relation "measure (\<lambda>(fmt, key_names, tmpdata, d, i, j). length fmt - j)") auto

declare get_data_loop.simps [simp del]

definition get_data :: "byte list \<Rightarrow> string \<Rightarrow> string list \<Rightarrow> error + pydict" where
  "get_data data struct_fmt key_names = get_data_loop (strip struct_fmt) key_names data [] 0 0"

subsection \<open>\<open>get_header\<close>, \<open>analyze_header\<close>, \<open>find_first_packet\<close>\<close>

text \<open>\<open>struct.unpack("!iB", data[0:5])\<close> needs exactly five bytes.\<close>

definition get_header :: "byte list \<Rightarrow> error + (int \<times> nat)" where
  "get_header data =
     (if length (take 5 data) \<noteq> 5 then Inl StructError
      else Inr (be_signed (take 4 data), unat (data ! 4)))"

definition analyze_header :: "byte list \<Rightarrow> error + (int \<times> nat \<times> byte list \<times> byte list)" where
  "analyze_header data =
     (if length data < 5 then Inl ParsingException
      else (case get_header data of
              Inl e \<Rightarrow> Inl e
            | Inr (packet_size, packet_type) \<Rightarrow>
                if packet_size < 5 then Inl ParsingException
                else if packet_size > int (length data) then Inl ParsingException
                else Inr (packet_size, packet_type,
                          slice_to data packet_size, slice_from data packet_size)))"

text \<open>
  The loop of \<open>find_first_packet\<close>. The source's \<open>counter\<close> and \<open>limit\<close> only decide
  which log lines are written, so they are not carried along. \<open>None\<close> is the source's
  \<open>None\<close>; a \<open>struct.error\<close> cannot arise because the header is read only when five
  bytes are there, and the model returns \<open>None\<close> on that unreachable branch.
\<close>

function find_first_packet :: "byte list \<Rightarrow> (byte list \<times> byte list) option" where
  "find_first_packet data =
     (if length data \<ge> 5 then
        (case get_header data of
           Inl e \<Rightarrow> None
         | Inr (psize, ptype) \<Rightarrow>
             if psize < 5 \<or> psize > 2000 \<or> ptype \<noteq> 16 then find_first_packet (slice_from data 1)
             else if int (length data) \<ge> psize then Some (slice_to data psize, slice_from data psize)
             else None)
      else None)"
  by pat_completeness auto
termination
  by (relation "measure length") (auto simp: slice_from_def)

declare find_first_packet.simps [simp del]

subsection \<open>Field names of the packet layouts\<close>

definition names_RobotModeData_30 :: "string list" where
  "names_RobotModeData_30 =
     [''size'', ''type'', ''timestamp'', ''isRobotConnected'',
      ''isRealRobotEnabled'', ''isPowerOnRobot'',
      ''isEmergencyStopped'', ''isSecurityStopped'',
      ''isProgramRunning'', ''isProgramPaused'',
      ''robotMode'', ''controlMode'', ''speedFraction'',
      ''speedScaling'']"

definition names_RobotModeData_32 :: "string list" where
  "names_RobotModeData_32 = names_RobotModeData_30 @ [''speedFractionLimit'']"

definition names_RobotModeData_35 :: "string list" where
  "names_RobotModeData_35 = names_RobotModeData_30 @ [''speedFractionLimit'', ''reservedByUR'']"

definition names_RobotModeData_legacy :: "string list" where
  "names_RobotModeData_legacy =
     [''size'', ''type'', ''timestamp'', ''isRobotConnected'',
      ''isRealRobotEnabled'', ''isPowerOnRobot'',
      ''isEmergencyStopped'', ''isSecurityStopped'',
      ''isProgramRunning'', ''isProgramPaused'',
      ''robotMode'', ''speedFraction'']"

text \<open>\<open>"%s" % i\<close> for the joint indices \<open>0..5\<close> (one decimal digit).\<close>

definition digit :: "nat \<Rightarrow> string" where
  "digit i = [char_of (48 + i)]"

text \<open>\<open>str(nb)\<close> of an integer.\<close>

fun str_nat :: "nat \<Rightarrow> string" where
  "str_nat n = (if n < 10 then digit n else str_nat (n div 10) @ digit (n mod 10))"

definition str_int :: "int \<Rightarrow> string" where
  "str_int i = (if i < 0 then ''-'' @ str_nat (nat (- i)) else str_nat (nat i))"

definition names_JointData :: "string list" where
  "names_JointData =
     [''size'', ''type''] @
     concat (map (\<lambda>i. [''q_actual'' @ digit i, ''q_target'' @ digit i,
                        ''qd_actual'' @ digit i, ''I_actual'' @ digit i,
                        ''V_actual'' @ digit i, ''T_motor'' @ digit i,
                        ''T_micro'' @ digit i, ''jointMode'' @ digit i]) [0..<6])"

definition names_CartesianInfo :: "string list" where
  "names_CartesianInfo = [''size'', ''type'', ''X'', ''Y'', ''Z'', ''Rx'', ''Ry'', ''Rz'']"

definition names_CartesianInfo_32 :: "string list" where
  "names_CartesianInfo_32 =
     names_CartesianInfo @
     [''tcpOffsetX'', ''tcpOffsetY'', ''tcpOffsetZ'',
      ''tcpOffsetRx'', ''tcpOffsetRy'', ''tcpOffsetRz'']"

definition names_MasterBoardData :: "string list" where
  "names_MasterBoardData =
     [''size'', ''type'', ''digitalInputBits'',
      ''digitalOutputBits'', ''analogInputRange0'',
      ''analogInputRange1'', ''analogInput0'', ''analogInput1'',
      ''analogInputDomain0'', ''analogInputDomain1'',
      ''analogOutput0'', ''analogOutput1'',
      ''masterBoardTemperature'', ''robotVoltage48V'',
      ''robotCurrent'', ''masterIOCurrent'']"

definition names_ToolData :: "string list" where
  "names_ToolData =
     [''size'', ''type'', ''analoginputRange2'',
      ''analoginputRange3'', ''analogInput2'', ''analogInput3'',
      ''toolVoltage48V'', ''toolOutputVoltage'', ''toolCurrent'',
      ''toolTemperature'', ''toolMode'']"

definition names_message :: "string list" where
  "names_message = [''size'', ''type'', ''timestamp'', ''source'', ''robotMessageType'']"

subsection \<open>\<open>ParserUtils.parse\<close>\<close>

text \<open>\<open>allData[key] = self._get_data(...)\<close>: the exception of \<open>_get_data\<close> propagates.\<close>

definition store :: "string \<Rightarrow> error + pydict \<Rightarrow> alldata \<Rightarrow> error + alldata" where
  "store key r allData =
     (case r of Inl e \<Rightarrow> Inl e | Inr d \<Rightarrow> Inr (AList.update key d allData))"

text \<open>The branch \<open>ptype == 20\<close>: the common header is decoded first, then the whole payload
  again with the format of its \<open>robotMessageType\<close>.\<close>

definition parse_message :: "alldata \<Rightarrow> byte list \<Rightarrow> error + alldata" where
  "parse_message allData pdata =
     (case get_data pdata ''!iB Qbb'' names_message of
        Inl e \<Rightarrow> Inl e
      | Inr tmp \<Rightarrow>
          (case map_of tmp ''robotMessageType'' of
             None \<Rightarrow> Inl KeyError
           | Some t \<Rightarrow>
               if t = VInt 3 then
                 store ''VersionMessage''
                   (get_data pdata ''!iBQbb bAbBBiAb''
                      (names_message @ [''projectNameSize'',
                        ''projectName'', ''majorVersion'', ''minorVersion'',
                        ''svnRevision'', ''buildDate''])) allData
               else if t = VInt 6 then
                 store ''robotCommMessage''
                   (get_data pdata ''!iBQbb iiAc''
                      (names_message @ [''code'', ''argument'', ''messageText''])) allData
               else if t = VInt 1 then
                 store ''labelMessage''
                   (get_data pdata ''!iBQbb iAc''
                      (names_message @ [''id'', ''messageText''])) allData
               else if t = VInt 2 then
                 store ''popupMessage''
                   (get_data pdata ''!iBQbb ??BAcAc''
                      (names_message @ [''warning'', ''error'',
                        ''titleSize'', ''messageTitle'', ''messageText''])) allData
               else if t = VInt 0 then
                 store ''messageText''
                   (get_data pdata ''!iBQbb Ac''
                      (names_message @ [''messageText''])) allData
               else if t = VInt 8 then
                 store ''varMessage''
                   (get_data pdata ''!iBQbb iiBAcAc''
                      (names_message @ [''code'', ''argument'',
                        ''titleSize'', ''messageTitle'', ''messageText''])) allData
               else if t = VInt 7 then
                 store ''keyMessage''
                   (get_data pdata ''!iBQbb iiBAcAc''
                      (names_message @ [''code'', ''argument'',
                        ''titleSize'', ''messageTitle'', ''messageText''])) allData
               else if t = VInt 5 then
                 store ''keyMessage''
                   (get_data pdata ''!iBQbb iiAc''
                      (names_message @ [''code'', ''argument'', ''messageText''])) allData
               else Inr allData))"

text \<open>
  The \<open>if\<close>/\<open>elif\<close> chain of the loop body, in the source's order. It returns the
  parser's \<open>version\<close> after the packet (assigned before \<open>_get_data\<close> runs, so it is kept even
  when \<open>_get_data\<close> raises) and the updated \<open>allData\<close> or the exception.
\<close>

definition parse_packet ::
  "version \<Rightarrow> alldata \<Rightarrow> int \<Rightarrow> nat \<Rightarrow> byte list \<Rightarrow> version \<times> (error + alldata)" where
  "parse_packet version allData psize ptype pdata =
     (if ptype = 16 then
        (version, store ''SecondaryClientData'' (get_data pdata ''!iB'' [''size'', ''type'']) allData)
      else if ptype = 0 then
        (if psize = 38 then
           ((3, 0), store ''RobotModeData''
                      (get_data pdata ''!IBQ???????BBdd'' names_RobotModeData_30) allData)
         else if psize = 46 then
           ((3, 2), store ''RobotModeData''
                      (get_data pdata ''!IBQ???????BBdd'' names_RobotModeData_32) allData)
         else if psize = 47 then
           ((3, 5), store ''RobotModeData''
                      (get_data pdata ''!IBQ???????BBddc'' names_RobotModeData_35) allData)
         else
           (version, store ''RobotModeData''
                       (get_data pdata ''!iBQ???????Bd'' names_RobotModeData_legacy) allData))
      else if ptype = 1 then
        (version, store ''JointData''
           (get_data pdata
              ''!iB dddffffB dddffffB dddffffBdddffffB dddffffB dddffffB'' names_JointData)
           allData)
      else if ptype = 4 then
        (if version < (3, 2) then
           (version, store ''CartesianInfo''
              (get_data pdata ''iBdddddd'' names_CartesianInfo) allData)
         else
           (version, store ''CartesianInfo''
              (get_data pdata ''iBdddddddddddd'' names_CartesianInfo_32) allData))
      else if ptype = 5 then
        (version, store ''LaserPointer(OBSOLETE)''
           (get_data pdata ''iBddd'' [''size'', ''type'']) allData)
      else if ptype = 3 then
        (version, store ''MasterBoardData''
           (get_data pdata
              (if version \<ge> (3, 0) then ''iBiibbddbbddffffBBb'' else ''iBhhbbddbbddffffBBb'')
              names_MasterBoardData) allData)
      else if ptype = 2 then
        (version, store ''ToolData'' (get_data pdata ''iBbbddfBffB'' names_ToolData) allData)
      else if ptype = 9 then (version, Inr allData)
      else if ptype = 8 \<and> version \<ge> (3, 2) then
        (version, store ''AdditionalInfo''
           (get_data pdata ''iB??''
              [''size'', ''type'', ''teachButtonPressed'', ''teachButtonEnabled'']) allData)
      else if ptype = 7 \<and> version \<ge> (3, 2) then
        (version, store ''ForceModeData''
           (get_data pdata ''iBddddddd''
              [''size'', ''type'', ''x'', ''y'', ''z'', ''rx'', ''ry'', ''rz'',
               ''robotDexterity'']) allData)
      else if ptype = 20 then (version, parse_message allData pdata)
      else (version, Inr allData))"

text \<open>
  The \<open>while data:\<close> loop. After a packet of type 16 the group is put back together and
  only its five header bytes are dropped; after any other packet the loop goes on with the
  bytes behind it.
\<close>

function parse_loop :: "version \<Rightarrow> alldata \<Rightarrow> byte list \<Rightarrow> version \<times> (error + alldata)" where
  "parse_loop version allData data =
     (if data = [] then (version, Inr allData)
      else (case analyze_header data of
              Inl e \<Rightarrow> (version, Inl e)
            | Inr (psize, ptype, pdata, rest) \<Rightarrow>
                (case parse_packet version allData psize ptype pdata of
                   (version', Inl e) \<Rightarrow> (version', Inl e)
                 | (version', Inr allData') \<Rightarrow>
                     parse_loop version' allData'
                       (if ptype = 16 then slice_from (pdata @ rest) 5 else rest))))"
  by pat_completeness auto
termination
  by (relation "measure (\<lambda>(version, allData, data). length data)")
     (auto simp: analyze_header_def get_header_def slice_from_def slice_to_def
           split: if_splits sum.splits)

declare parse_loop.simps [simp del]

text \<open>\<open>parse\<close> returns the parser's version after the call with the result.\<close>

definition parse :: "version \<Rightarrow> byte list \<Rightarrow> version \<times> (error + alldata)" where
  "parse version data = parse_loop version [] data"

subsection \<open>\<open>SecondaryMonitor\<close>: state\<close>

text \<open>
  The fields of the monitor that the modelled methods read or write. \<open>socket_sent\<close> lists the
  buffers written to the socket, \<open>prog_notified\<close> the programs whose condition got
  \<open>notify_all\<close>, and \<open>data_notified\<close> counts the \<open>notifyAll\<close> calls on \<open>_dataEvent\<close>.
  \<open>time.time()\<close> is a clock reading given by the environment.
\<close>

record monitor =
  parser_version :: version
  dict :: alldata
  prog_queue :: "byte list list"
  dataqueue :: "byte list"
  running :: bool
  lastpacket_timestamp :: int
  socket_sent :: "byte list list"
  prog_notified :: "byte list list"
  data_notified :: nat

text \<open>The state \<open>__init__\<close> sets up before it starts the thread.\<close>

definition init_monitor :: monitor where
  "init_monitor =
     \<lparr>parser_version = (0, 0), dict = [], prog_queue = [], dataqueue = [],
      running = False, lastpacket_timestamp = 0, socket_sent = [],
      prog_notified = [], data_notified = 0\<rparr>"

subsection \<open>\<open>send_program\<close>\<close>

datatype prog = PStr string | PBytes "byte list"

text \<open>\<open>str.encode()\<close> (UTF-8) for code points below 256.\<close>

definition encode_char :: "char \<Rightarrow> byte list" where
  "encode_char c =
     (let n = (of_char c :: nat)
      in if n < 128 then [of_nat n] else [of_nat (192 + n div 64), of_nat (128 + n mod 64)])"

definition encode :: "string \<Rightarrow> byte list" where
  "encode s = concat (map encode_char s)"

definition is_space_byte :: "byte \<Rightarrow> bool" where
  "is_space_byte b = (b \<in> set [0x20, 0x09, 0x0A, 0x0B, 0x0C, 0x0D])"

definition strip_prog :: "prog \<Rightarrow> prog" where
  "strip_prog p =
     (case p of
        PStr s \<Rightarrow> PStr (strip s)
      | PBytes b \<Rightarrow> PBytes (rev (dropWhile is_space_byte (rev (dropWhile is_space_byte b)))))"

text \<open>
  The buffer of the \<open>Program\<close> object that \<open>send_program\<close> builds. The statement
  \<open>prog.strip()\<close> computes the stripped value and drops it: \<open>prog\<close> itself is the
  argument as passed.
\<close>

definition program_of :: "prog \<Rightarrow> byte list" where
  "program_of prog0 =
     (let unused = strip_prog prog0;
          prog = (case prog0 of PBytes b \<Rightarrow> b | PStr s \<Rightarrow> encode s)
      in prog @ [0x0A])"

text \<open>The enqueueing half of \<open>send_program\<close>; the caller then waits on the program's
  condition.\<close>

definition send_program :: "prog \<Rightarrow> monitor \<Rightarrow> monitor" where
  "send_program prog st = st\<lparr>prog_queue := prog_queue st @ [program_of prog]\<rparr>"

subsection \<open>One iteration of \<open>run\<close>\<close>

text \<open>The first block of the loop body: at most one queued program is popped, sent and
  its waiter notified.\<close>

definition drain_queue :: "monitor \<Rightarrow> monitor" where
  "drain_queue st =
     (case prog_queue st of
        [] \<Rightarrow> st
      | data # queue \<Rightarrow>
          st\<lparr>prog_queue := queue, socket_sent := socket_sent st @ [data],
             prog_notified := prog_notified st @ [data]\<rparr>)"

text \<open>
  \<open>SecondaryMonitor._get_data\<close>: \<open>recvs\<close> are the results of the coming
  \<open>self._socket.recv(1024)\<close> calls. The result is the packet, the new \<open>_dataqueue\<close> and the
  reads not used; \<open>None\<close> when the reads are used up and no packet has been found (the
  source then stays in \<open>recv\<close>).
\<close>

fun monitor_get_data ::
  "byte list list \<Rightarrow> byte list \<Rightarrow> (byte list \<times> byte list \<times> byte list list) option" where
  "monitor_get_data [] queue =
     (case find_first_packet queue of
        Some (pkt, rest) \<Rightarrow> Some (pkt, rest, [])
      | None \<Rightarrow> None)"
| "monitor_get_data (tmp # recvs) queue =
     (case find_first_packet queue of
        Some (pkt, rest) \<Rightarrow> Some (pkt, rest, tmp # recvs)
      | None \<Rightarrow> monitor_get_data recvs (queue @ tmp))"

text \<open>\<open>self._dict[pkt][name]\<close>.\<close>

definition field :: "alldata \<Rightarrow> string \<Rightarrow> string \<Rightarrow> error + pyval" where
  "field d pkt name =
     (case map_of d pkt of
        None \<Rightarrow> Inl KeyError
      | Some r \<Rightarrow> (case map_of r name of None \<Rightarrow> Inl KeyError | Some v \<Rightarrow> Inr v))"

text \<open>\<open>status = (status and (test))\<close>: the test is evaluated only when \<open>status\<close> is true.\<close>

definition and_then :: "error + bool \<Rightarrow> error + bool \<Rightarrow> error + bool" where
  "and_then status test =
     (case status of Inl e \<Rightarrow> Inl e | Inr s \<Rightarrow> if s then test else Inr False)"

definition field_is :: "alldata \<Rightarrow> string \<Rightarrow> pyval \<Rightarrow> error + bool" where
  "field_is d name v =
     (case field d ''RobotModeData'' name of Inl e \<Rightarrow> Inl e | Inr x \<Rightarrow> Inr (x = v))"

text \<open>\<open>robotMode\<close> is decoded with \<open>B\<close> in every layout, so \<open>== rmode\<close> compares two
  ints.\<close>

definition check_if_running :: "monitor \<Rightarrow> int \<Rightarrow> error + bool" where
  "check_if_running st rmode =
     and_then (and_then (and_then (and_then (and_then (and_then (Inr True)
       (field_is (dict st) ''robotMode'' (VInt rmode)))
       (field_is (dict st) ''isRealRobotEnabled'' (VBool True)))
       (field_is (dict st) ''isEmergencyStopped'' (VBool False)))
       (field_is (dict st) ''isSecurityStopped'' (VBool False)))
       (field_is (dict st) ''isRobotConnected'' (VBool True)))
       (field_is (dict st) ''isPowerOnRobot'' (VBool True))"

text \<open>
  The loop body from \<open>tmpdict = self._parser.parse(data)\<close> on, for the packet \<open>data\<close> that
  \<open>_get_data\<close> returned. \<open>Inr\<close> is the state at the end of the iteration (after
  \<open>continue\<close> or after the last statement); \<open>Inl e\<close> is an exception that \<open>run\<close> does not
  catch.
\<close>

definition run_body :: "int \<Rightarrow> byte list \<Rightarrow> monitor \<Rightarrow> error + monitor" where
  "run_body now data st =
     (case parse (parser_version st) data of
        (v, Inl e) \<Rightarrow>
          if e = ParsingException then Inr (st\<lparr>parser_version := v\<rparr>) else Inl e
      | (v, Inr tmpdict) \<Rightarrow>
          (let st1 = st\<lparr>parser_version := v, dict := tmpdict\<rparr>
           in if map_of (dict st1) ''RobotModeData'' = None then Inr st1
              else
                (let st2 = st1\<lparr>lastpacket_timestamp := now\<rparr>;
                     rmode = (if parser_version st2 \<ge> (3, 0) then 7 else 0)
                 in case check_if_running st2 rmode of
                      Inl e \<Rightarrow> Inl e
                    | Inr r \<Rightarrow>
                        Inr (st2\<lparr>running := r, data_notified := data_notified st2 + 1\<rparr>))))"

text \<open>The whole loop body. \<open>None\<close>: the iteration is still waiting for input.\<close>

definition run_iteration ::
  "int \<Rightarrow> byte list list \<Rightarrow> monitor \<Rightarrow> (error + monitor \<times> byte list list) option" where
  "run_iteration now recvs st =
     (let st1 = drain_queue st
      in case monitor_get_data recvs (dataqueue st1) of
           None \<Rightarrow> None
         | Some (data, rest, recvs') \<Rightarrow>
             Some (case run_body now data (st1\<lparr>dataqueue := rest\<rparr>) of
                     Inl e \<Rightarrow> Inl e
                   | Inr st' \<Rightarrow> Inr (st', recvs')))"

subsection \<open>Getters (with \<open>wait=False\<close>)\<close>

text \<open>\<open>None\<close> is Python's \<open>None\<close>.\<close>

definition get_cartesian_info :: "monitor \<Rightarrow> pydict option" where
  "get_cartesian_info st = map_of (dict st) ''CartesianInfo''"

definition get_joint_data :: "monitor \<Rightarrow> pydict option" where
  "get_joint_data st = map_of (dict st) ''JointData''"

text \<open>\<open>mask = 1 << nb\<close>, then \<open>1 if output & mask else 0\<close>. A negative shift count is a
  ValueError.\<close>

definition test_bit :: "pyval \<Rightarrow> int \<Rightarrow> error + int" where
  "test_bit output nb =
     (if nb < 0 then Inl ValueError
      else (case as_int output of
              Inl e \<Rightarrow> Inl e
            | Inr x \<Rightarrow> if and x (push_bit (nat nb) 1) \<noteq> 0 then Inr 1 else Inr 0))"

definition get_digital_out :: "monitor \<Rightarrow> int \<Rightarrow> error + int" where
  "get_digital_out st nb =
     (case field (dict st) ''MasterBoardData'' ''digitalOutputBits'' of
        Inl e \<Rightarrow> Inl e
      | Inr output \<Rightarrow> test_bit output nb)"

definition get_digital_out_bits :: "monitor \<Rightarrow> error + pyval" where
  "get_digital_out_bits st = field (dict st) ''MasterBoardData'' ''digitalOutputBits''"

definition get_digital_in :: "monitor \<Rightarrow> int \<Rightarrow> error + int" where
  "get_digital_in st nb =
     (case field (dict st) ''MasterBoardData'' ''digitalInputBits'' of
        Inl e \<Rightarrow> Inl e
      | Inr output \<Rightarrow> test_bit output nb)"

definition get_digital_in_bits :: "monitor \<Rightarrow> error + pyval" where
  "get_digital_in_bits st = field (dict st) ''MasterBoardData'' ''digitalInputBits''"

definition get_analog_in :: "monitor \<Rightarrow> int \<Rightarrow> error + pyval" where
  "get_analog_in st nb = field (dict st) ''MasterBoardData'' (''analogInput'' @ str_int nb)"

definition is_program_running :: "monitor \<Rightarrow> error + pyval" where
  "is_program_running st = field (dict st) ''RobotModeData'' ''isProgramRunning''"

subsection \<open>A sequence of \<open>parse\<close> calls on one parser\<close>

text \<open>The parser's version after the frames have been parsed one after the other, each call
  starting from the version the previous one left (also when that call raised).\<close>

fun parse_frames :: "version \<Rightarrow> byte list list \<Rightarrow> version" where
  "parse_frames v [] = v"
| "parse_frames v (frame # frames) = parse_frames (fst (parse v frame)) frames"

subsection \<open>The frame scanner in the words of the specification\<close>

text \<open>
  The header of a frame as the specification gives it: \<open>declared_size\<close> is an unsigned
  32-bit big-endian number, \<open>packet_type\<close> the fifth byte, and a header is valid when
  \<open>5 <= declared_size <= 2000\<close> and \<open>packet_type == 16\<close> (five bytes must be there to
  read it).
\<close>

definition declared_size :: "byte list \<Rightarrow> int" where
  "declared_size d = be_unsigned (take 4 d)"

definition packet_type :: "byte list \<Rightarrow> nat" where
  "packet_type d = unat (d ! 4)"

definition valid_header :: "byte list \<Rightarrow> bool" where
  "valid_header d \<longleftrightarrow>
     5 \<le> length d \<and> 5 \<le> declared_size d \<and> declared_size d \<le> 2000 \<and> packet_type d = 16"

subsection \<open>The fields that \<open>check_if_running\<close> reads\<close>

definition has_health_fields :: "pydict \<Rightarrow> bool" where
  "has_health_fields r \<longleftrightarrow>
     map_of r ''robotMode'' \<noteq> None \<and> map_of r ''isRealRobotEnabled'' \<noteq> None
     \<and> map_of r ''isEmergencyStopped'' \<noteq> None \<and> map_of r ''isSecurityStopped'' \<noteq> None
     \<and> map_of r ''isRobotConnected'' \<noteq> None \<and> map_of r ''isPowerOnRobot'' \<noteq> None"

section \<open>Properties\<close>

subsection \<open>The loop of \<open>parse\<close>\<close>

lemma parse_loop_empty: "parse_loop v a [] = (v, Inr a)"
  by (simp add: parse_loop.simps[of v a "[]"])

lemma parse_loop_header_error:
  assumes "data \<noteq> []" and "analyze_header data = Inl e"
  shows "parse_loop v a data = (v, Inl e)"
  using assms by (simp add: parse_loop.simps[of v a data])

text \<open>One round of the loop, for a header that was accepted.\<close>

lemma parse_loop_step:
  assumes "data \<noteq> []" and "analyze_header data = Inr (psize, ptype, pdata, rest)"
  shows "parse_loop v a data =
           (case parse_packet v a psize ptype pdata of
              (v', Inl e) \<Rightarrow> (v', Inl e)
            | (v', Inr a') \<Rightarrow>
                parse_loop v' a' (if ptype = 16 then slice_from (pdata @ rest) 5 else rest))"
  using assms by (simp add: parse_loop.simps[of v a data])

text \<open>A property of the version that every packet keeps is kept by the loop, also when
  the loop ends in an exception.\<close>

lemma parse_loop_version_invariant:
  assumes step: "\<And>v a ps pt pd. J v \<Longrightarrow> J (fst (parse_packet v a ps pt pd))"
    and "J v"
  shows "J (fst (parse_loop v a data))"
  using \<open>J v\<close>
proof (induction v a data rule: parse_loop.induct)
  case (1 version allData data)
  show ?case
  proof (cases "data = []")
    case True
    with "1.prems" show ?thesis by (simp add: parse_loop_empty)
  next
    case ne: False
    show ?thesis
    proof (cases "analyze_header data")
      case (Inl e)
      with ne "1.prems" show ?thesis by (simp add: parse_loop_header_error)
    next
      case (Inr hdr)
      obtain psize ptype pdata rest where hdr: "hdr = (psize, ptype, pdata, rest)"
        by (cases hdr) auto
      obtain v' res where pp: "parse_packet version allData psize ptype pdata = (v', res)"
        by (cases "parse_packet version allData psize ptype pdata") auto
      have v': "J v'"
        using step[OF "1.prems", of allData psize ptype pdata] pp by simp
      show ?thesis
      proof (cases res)
        case (Inl e)
        with ne Inr hdr pp v' show ?thesis
          by (simp add: parse_loop_step)
      next
        case r: (Inr allData')
        have "J (fst (parse_loop v' allData'
                   (if ptype = 16 then slice_from (pdata @ rest) 5 else rest)))"
          using "1.IH"[OF ne Inr hdr[symmetric] refl refl _ _ v'] pp r by simp
        with ne Inr hdr pp r show ?thesis
          by (simp add: parse_loop_step)
      qed
    qed
  qed
qed

text \<open>A property of version and records that every successful packet keeps holds for the
  result of a successful parse.\<close>

lemma parse_loop_invariant:
  assumes step: "\<And>v a ps pt pd v' a'.
            I v a \<Longrightarrow> parse_packet v a ps pt pd = (v', Inr a') \<Longrightarrow> I v' a'"
    and "I v a" and "parse_loop v a data = (w, Inr b)"
  shows "I w b"
  using assms(2,3)
proof (induction v a data rule: parse_loop.induct)
  case (1 version allData data)
  show ?case
  proof (cases "data = []")
    case True
    with "1.prems" show ?thesis by (simp add: parse_loop_empty)
  next
    case ne: False
    show ?thesis
    proof (cases "analyze_header data")
      case (Inl e)
      with ne "1.prems" show ?thesis by (simp add: parse_loop_header_error)
    next
      case (Inr hdr)
      obtain psize ptype pdata rest where hdr: "hdr = (psize, ptype, pdata, rest)"
        by (cases hdr) auto
      obtain v' res where pp: "parse_packet version allData psize ptype pdata = (v', res)"
        by (cases "parse_packet version allData psize ptype pdata") auto
      show ?thesis
      proof (cases res)
        case (Inl e)
        with ne Inr hdr pp "1.prems" show ?thesis
          by (simp add: parse_loop_step)
      next
        case r: (Inr allData')
        have I': "I v' allData'"
          using step[OF "1.prems"(1)] pp r by simp
        have "parse_loop v' allData' (if ptype = 16 then slice_from (pdata @ rest) 5 else rest)
                = (w, Inr b)"
          using ne Inr hdr pp r "1.prems"(2) by (simp add: parse_loop_step)
        then show ?thesis
          using "1.IH"[OF ne Inr hdr[symmetric] refl refl _ _ I'] pp r by simp
      qed
    qed
  qed
qed

subsection \<open>The protocol version\<close>

lemma parse_packet_version:
  "fst (parse_packet v a ps pt pd) \<in> {v, (3, 0), (3, 2), (3, 5)}"
  by (simp add: parse_packet_def)

lemma parse_version: "fst (parse v data) \<in> {v, (3, 0), (3, 2), (3, 5)}"
  unfolding parse_def
proof (rule parse_loop_version_invariant[where J = "\<lambda>u. u \<in> {v, (3, 0), (3, 2), (3, 5)}"])
  fix u a ps pt pd
  assume "u \<in> {v, (3, 0), (3, 2), (3, 5)}"
  then show "fst (parse_packet u a ps pt pd) \<in> {v, (3, 0), (3, 2), (3, 5)}"
    using parse_packet_version[of u a ps pt pd] by auto
qed simp

text \<open>
  Claim C1, as stated, fails: a RobotModeData packet of declared size 38 sets the version
  to \<open>(3, 0)\<close> whatever it was. After a size-47 packet has raised the version to
  \<open>(3, 5)\<close>, a size-38 packet brings it down to \<open>(3, 0)\<close>.
\<close>

theorem version_decreases_counterexample:
  "parse_frames (0, 0) [[0,0,0,47,0] @ replicate 42 0] = (3, 5)
   \<and> parse_frames (0, 0) [[0,0,0,47,0] @ replicate 42 0, [0,0,0,38,0] @ replicate 33 0] = (3, 0)
   \<and> (3, 0) < ((3, 5)::version)"
  by code_simp

lemma parse_packet_version_exact:
  "fst (parse_packet v a ps pt pd) =
     (if pt = 0 \<and> ps = 38 then (3, 0) else if pt = 0 \<and> ps = 46 then (3, 2)
      else if pt = 0 \<and> ps = 47 then (3, 5) else v)"
  by (simp add: parse_packet_def)

lemma parse_loop_last_packet:
  assumes "analyze_header data = Inr (ps, pt, pd, [])" and "pt \<noteq> 16"
  shows "fst (parse_loop u a data) = fst (parse_packet u a ps pt pd)"
proof -
  have ne: "data \<noteq> []" using assms(1) by (auto simp: analyze_header_def)
  show ?thesis
    using assms(2)
    by (cases "parse_packet u a ps pt pd")
       (auto simp: parse_loop_step[OF ne assms(1)] parse_loop_empty split: sum.splits)
qed

lemma group_header_decodes:
  assumes "5 \<le> length gd"
  shows "\<exists>r. get_data gd ''!iB'' [''size'', ''type''] = Inr r"
  using assms
  by (simp add: get_data_def strip_def is_space_def get_data_loop.simps calcsize_def)

lemma analyze_header_length:
  assumes "analyze_header data = Inr (ps, pt, pd, rest)"
  shows "5 \<le> length pd" and "data \<noteq> []"
  using assms
  by (auto simp: analyze_header_def slice_to_def split: if_splits sum.splits)

lemma parse_group_robot_mode:
  assumes g: "analyze_header frame = Inr (gs, 16, gd, grest)"
    and p: "analyze_header (slice_from (gd @ grest) 5) = Inr (ps, 0, pd, [])"
  shows "fst (parse u frame) =
           (if ps = 38 then (3, 0) else if ps = 46 then (3, 2)
            else if ps = 47 then (3, 5) else u)"
proof -
  obtain r where r: "get_data gd ''!iB'' [''size'', ''type''] = Inr r"
    using group_header_decodes[OF analyze_header_length(1)[OF g]] by blast
  have pk: "parse_packet u [] gs 16 gd = (u, Inr [(''SecondaryClientData'', r)])"
    by (simp add: parse_packet_def store_def r)
  have "parse_loop u [] frame =
          parse_loop u [(''SecondaryClientData'', r)] (slice_from (gd @ grest) 5)"
    by (simp add: parse_loop_step[OF analyze_header_length(2)[OF g] g] pk)
  then show ?thesis
    using parse_loop_last_packet[OF p, of u "[(''SecondaryClientData'', r)]"]
    by (simp add: parse_def parse_packet_version_exact)
qed

lemma parse_frames_snoc:
  "parse_frames v (frames @ [frame]) = fst (parse (parse_frames v frames) frame)"
  by (induction frames arbitrary: v) simp_all

text \<open>
  Claim C1, amended: over every sequence of frames parsed by one parser, the version is
  either the one it started with or one of \<open>(3, 0)\<close>, \<open>(3, 2)\<close>, \<open>(3, 5)\<close>; so once it is
  at least \<open>(3, 0)\<close> it stays at least \<open>(3, 0)\<close> (it never reverts to the pre-3.0 value).
  Within the three values it is not monotonic: a RobotModeData packet of declared size 38,
  46 or 47 sets it to \<open>(3, 0)\<close>, \<open>(3, 2)\<close> or \<open>(3, 5)\<close> whatever it was, and no other
  packet changes it; so after a frame that is a group holding one RobotModeData packet the
  version is the one of that packet's size, or the version before the frame for any other
  size.
\<close>

theorem version_stays_at_least_3_0:
  "parse_frames v frames \<in> {v, (3, 0), (3, 2), (3, 5)}
   \<and> ((3, 0) \<le> v \<longrightarrow> (3, 0) \<le> parse_frames v frames)
   \<and> (\<forall>a ps pt pd. fst (parse_packet v a ps pt pd) =
          (if pt = 0 \<and> ps = 38 then (3, 0) else if pt = 0 \<and> ps = 46 then (3, 2)
           else if pt = 0 \<and> ps = 47 then (3, 5) else v))
   \<and> (\<forall>frame gs gd grest ps pd.
          analyze_header frame = Inr (gs, 16, gd, grest)
          \<and> analyze_header (slice_from (gd @ grest) 5) = Inr (ps, 0, pd, [])
          \<longrightarrow> parse_frames v (frames @ [frame]) =
                (if ps = 38 then (3, 0) else if ps = 46 then (3, 2)
                 else if ps = 47 then (3, 5) else parse_frames v frames))"
proof (intro conjI allI impI)
  have bound: "parse_frames u fs \<in> {u, (3, 0), (3, 2), (3, 5)}" for u fs
  proof (induction fs arbitrary: u)
    case Nil
    show ?case by simp
  next
    case (Cons f fs)
    have "fst (parse u f) \<in> {u, (3, 0), (3, 2), (3, 5)}" by (rule parse_version)
    with Cons[of "fst (parse u f)"] show ?case by auto
  qed
  show "parse_frames v frames \<in> {v, (3, 0), (3, 2), (3, 5)}" by (rule bound)
  show "(3, 0) \<le> parse_frames v frames" if "(3, 0) \<le> v"
    using bound[of v frames] that by auto
next
  fix a ps pt pd
  show "fst (parse_packet v a ps pt pd) =
          (if pt = 0 \<and> ps = 38 then (3, 0) else if pt = 0 \<and> ps = 46 then (3, 2)
           else if pt = 0 \<and> ps = 47 then (3, 5) else v)"
    by (rule parse_packet_version_exact)
next
  fix frame gs gd grest ps pd
  assume "analyze_header frame = Inr (gs, 16, gd, grest)
          \<and> analyze_header (slice_from (gd @ grest) 5) = Inr (ps, 0, pd, [])"
  then show "parse_frames v (frames @ [frame]) =
                (if ps = 38 then (3, 0) else if ps = 46 then (3, 2)
                 else if ps = 47 then (3, 5) else parse_frames v frames)"
    by (simp add: parse_frames_snoc parse_group_robot_mode)
qed

theorem version_stays_at_least_3_0_witness:
  "(3, 0) \<le> ((3, 5)::version)
   \<and> (3, 0) \<le> parse_frames (3, 5) [[0,0,0,43,16, 0,0,0,38,0] @ replicate 33 0]
   \<and> analyze_header ([0,0,0,52,16, 0,0,0,47,0] @ replicate 42 0)
       = Inr (52, 16, [0,0,0,52,16, 0,0,0,47,0] @ replicate 42 0, [])
   \<and> analyze_header (slice_from (([0,0,0,52,16, 0,0,0,47,0] @ replicate 42 0) @ []) 5)
       = Inr (47, 0, [0,0,0,47,0] @ replicate 42 0, [])
   \<and> parse_frames (3, 5) ([[0,0,0,43,16, 0,0,0,38,0] @ replicate 33 0]
         @ [[0,0,0,52,16, 0,0,0,47,0] @ replicate 42 0]) = (3, 5)
   \<and> fst (parse_packet (3, 5) [] 38 0 ([0,0,0,38,0] @ replicate 33 0)) = (3, 0)"
proof -
  define f38 where "f38 = [0,0,0,43,16, 0,0,0,38,0] @ replicate 33 (0::byte)"
  define f47 where "f47 = [0,0,0,52,16, 0,0,0,47,0] @ replicate 42 (0::byte)"
  define p47 where "p47 = [0,0,0,47,0] @ replicate 42 (0::byte)"
  define p38 where "p38 = [0,0,0,38,0] @ replicate 33 (0::byte)"
  note T = version_stays_at_least_3_0[of "(3, 5)" "[f38]"]
  have h: "(3, 0) \<le> ((3, 5)::version)" by simp
  have c1: "(3, 0) \<le> parse_frames (3, 5) [f38]"
    by (rule T[THEN conjunct2, THEN conjunct1, rule_format]) (rule h)
  have a1: "analyze_header f47 = Inr (52, 16, f47, [])"
    unfolding f47_def by code_simp
  have a2: "analyze_header (slice_from (f47 @ []) 5) = Inr (47, 0, p47, [])"
    unfolding f47_def p47_def by code_simp
  have "parse_frames (3, 5) ([f38] @ [f47]) =
          (if (47::int) = 38 then (3, 0) else if (47::int) = 46 then (3, 2)
           else if (47::int) = 47 then (3, 5) else parse_frames (3, 5) [f38])"
    by (rule T[THEN conjunct2, THEN conjunct2, THEN conjunct2, rule_format,
               of f47 52 f47 "[]" 47 p47])
       (intro conjI a1 a2)
  then have c2: "parse_frames (3, 5) ([f38] @ [f47]) = (3, 5)" by simp
  have "fst (parse_packet (3, 5) [] 38 0 p38) =
          (if (0::nat) = 0 \<and> (38::int) = 38 then (3, 0)
           else if (0::nat) = 0 \<and> (38::int) = 46 then (3, 2)
           else if (0::nat) = 0 \<and> (38::int) = 47 then (3, 5) else (3, 5))"
    by (rule T[THEN conjunct2, THEN conjunct2, THEN conjunct1, rule_format])
  then have c3: "fst (parse_packet (3, 5) [] 38 0 p38) = (3, 0)" by simp
  show ?thesis
    using h c1 a1 a2 c2 c3 unfolding f38_def f47_def p47_def p38_def by (intro conjI)
qed

subsection \<open>The RobotModeData layouts\<close>

text \<open>
  Claim C3 (the code departs from it): a well-formed RobotModeData packet of declared size
  46 sets the version to \<open>(3, 2)\<close>, but its record has the 14 fields of the 3.0 layout and
  no \<open>speedFractionLimit\<close>, because the format string of that branch has 14 characters
  for 15 names. For size 47 the version is \<open>(3, 5)\<close> and the record has 15 fields:
  \<open>speedFractionLimit\<close> holds the one byte read by \<open>c\<close> and \<open>reservedByUR\<close> is missing.
\<close>

theorem robot_mode_data_46_47_field_count:
  "parse (0, 0) ([0,0,0,46,0] @ replicate 41 0) =
     ((3, 2), Inr [(''RobotModeData'',
        [(''size'', VInt 46), (''type'', VInt 0), (''timestamp'', VInt 0),
         (''isRobotConnected'', VBool False), (''isRealRobotEnabled'', VBool False),
         (''isPowerOnRobot'', VBool False), (''isEmergencyStopped'', VBool False),
         (''isSecurityStopped'', VBool False), (''isProgramRunning'', VBool False),
         (''isProgramPaused'', VBool False), (''robotMode'', VInt 0),
         (''controlMode'', VInt 0), (''speedFraction'', VFloat [0,0,0,0,0,0,0,0]),
         (''speedScaling'', VFloat [0,0,0,0,0,0,0,0])])])
   \<and> parse (0, 0) ([0,0,0,47,0] @ replicate 42 0) =
     ((3, 5), Inr [(''RobotModeData'',
        [(''size'', VInt 47), (''type'', VInt 0), (''timestamp'', VInt 0),
         (''isRobotConnected'', VBool False), (''isRealRobotEnabled'', VBool False),
         (''isPowerOnRobot'', VBool False), (''isEmergencyStopped'', VBool False),
         (''isSecurityStopped'', VBool False), (''isProgramRunning'', VBool False),
         (''isProgramPaused'', VBool False), (''robotMode'', VInt 0),
         (''controlMode'', VInt 0), (''speedFraction'', VFloat [0,0,0,0,0,0,0,0]),
         (''speedScaling'', VFloat [0,0,0,0,0,0,0,0]),
         (''speedFractionLimit'', VBytes [0])])])"
  by code_simp

subsection \<open>Getters\<close>

text \<open>
  Claim C2 (the code departs from it): after an iteration whose batch holds neither
  MasterBoardData nor RobotModeData, \<open>get_cartesian_info\<close> and \<open>get_joint_data\<close> return
  \<open>None\<close>, but \<open>get_digital_out\<close>, \<open>get_digital_in\<close>, \<open>get_analog_in\<close> and
  \<open>is_program_running\<close> index the dictionary without a test and raise KeyError.
\<close>

theorem getters_raise_on_absent_packet:
  "run_body 0 [0,0,0,10,16, 0,0,0,5,9] init_monitor =
     Inr (init_monitor\<lparr>dict :=
            [(''SecondaryClientData'', [(''size'', VInt 10), (''type'', VInt 16)])]\<rparr>)
   \<and> (let st = init_monitor\<lparr>dict :=
                   [(''SecondaryClientData'', [(''size'', VInt 10), (''type'', VInt 16)])]\<rparr>
      in get_cartesian_info st = None \<and> get_joint_data st = None
       \<and> get_digital_out st 0 = Inl KeyError \<and> get_digital_in st 0 = Inl KeyError
       \<and> get_analog_in st 0 = Inl KeyError \<and> is_program_running st = Inl KeyError)"
  by code_simp

subsection \<open>\<open>send_program\<close>\<close>

text \<open>
  Claim C6 (the code departs from it): the result of \<open>prog.strip()\<close> is thrown away, so
  the buffer put on the queue is the argument as passed followed by the terminator; for
  \<open>"a "\<close> it is \<open>"a \n"\<close>, with the trailing blank still there, for a byte string and for a
  text string alike.
\<close>

theorem send_program_keeps_trailing_whitespace:
  "prog_queue (send_program (PBytes [0x61, 0x20]) init_monitor) = [[0x61, 0x20, 0x0A]]
   \<and> strip_prog (PBytes [0x61, 0x20]) = PBytes [0x61]
   \<and> prog_queue (send_program (PStr ''a '') init_monitor) = [[0x61, 0x20, 0x0A]]
   \<and> strip_prog (PStr ''a '') = PStr ''a''"
  by code_simp

subsection \<open>The receive loop\<close>

lemma drain_queue_keeps:
  "parser_version (drain_queue st) = parser_version st"
  "dict (drain_queue st) = dict st"
  "running (drain_queue st) = running st"
  "lastpacket_timestamp (drain_queue st) = lastpacket_timestamp st"
  "data_notified (drain_queue st) = data_notified st"
  by (simp_all add: drain_queue_def split: list.splits)

text \<open>
  Claim C7: when decoding the frame of an iteration raises ParsingException, the loop
  catches it and the iteration ends normally (the loop goes on); the state dictionary is
  exactly what it was before, and neither the running flag nor the timestamp changes and
  no waiter is notified.
\<close>

theorem parse_error_leaves_dict:
  assumes got: "monitor_get_data recvs (dataqueue (drain_queue st)) = Some (data, rest, recvs')"
    and err: "snd (parse (parser_version st) data) = Inl ParsingException"
  shows "\<exists>st'. run_iteration now recvs st = Some (Inr (st', recvs'))
           \<and> dict st' = dict st \<and> running st' = running st
           \<and> lastpacket_timestamp st' = lastpacket_timestamp st
           \<and> data_notified st' = data_notified st"
proof -
  obtain v where p: "parse (parser_version st) data = (v, Inl ParsingException)"
    using err by (cases "parse (parser_version st) data") auto
  have "run_body now data ((drain_queue st)\<lparr>dataqueue := rest\<rparr>)
          = Inr ((drain_queue st)\<lparr>dataqueue := rest, parser_version := v\<rparr>)"
    by (simp add: run_body_def drain_queue_keeps p)
  then have "run_iteration now recvs st
          = Some (Inr ((drain_queue st)\<lparr>dataqueue := rest, parser_version := v\<rparr>, recvs'))"
    using got by (simp add: run_iteration_def Let_def)
  then show ?thesis by (simp add: drain_queue_keeps)
qed

theorem parse_error_leaves_dict_witness:
  "monitor_get_data [[0,0,0,10,16, 0,0,0,5,0]]
       (dataqueue (drain_queue (init_monitor\<lparr>dict := [(''JointData'', [])]\<rparr>)))
     = Some ([0,0,0,10,16, 0,0,0,5,0], [], [])
   \<and> snd (parse (parser_version (init_monitor\<lparr>dict := [(''JointData'', [])]\<rparr>))
            [0,0,0,10,16, 0,0,0,5,0]) = Inl ParsingException
   \<and> (\<exists>st'. run_iteration 1 [[0,0,0,10,16, 0,0,0,5,0]]
               (init_monitor\<lparr>dict := [(''JointData'', [])]\<rparr>) = Some (Inr (st', []))
           \<and> dict st' = dict (init_monitor\<lparr>dict := [(''JointData'', [])]\<rparr>))"
proof -
  have h1: "monitor_get_data [[0,0,0,10,16, 0,0,0,5,0]]
       (dataqueue (drain_queue (init_monitor\<lparr>dict := [(''JointData'', [])]\<rparr>)))
     = Some ([0,0,0,10,16, 0,0,0,5,0], [], [])"
    by code_simp
  have h2: "snd (parse (parser_version (init_monitor\<lparr>dict := [(''JointData'', [])]\<rparr>))
            [0,0,0,10,16, 0,0,0,5,0]) = Inl ParsingException"
    by code_simp
  show ?thesis
    using parse_error_leaves_dict[OF h1 h2, of 1] h1 h2 by blast
qed

subsection \<open>AdditionalInfo and ForceModeData\<close>

lemma store_Inr:
  "store key r a = Inr a' \<Longrightarrow> \<exists>d. a' = AList.update key d a"
  by (auto simp: store_def split: sum.splits)

lemma map_of_store:
  "store key r a = Inr a' \<Longrightarrow> k \<noteq> key \<Longrightarrow> map_of a' k = map_of a k"
  by (auto simp: store_def update_conv' split: sum.splits)

lemma map_of_store_same:
  "store key r a = Inr a' \<Longrightarrow> map_of a' key \<noteq> None"
  by (auto simp: store_def update_conv' split: sum.splits)

lemma parse_message_keeps:
  assumes "parse_message a pd = Inr a'"
    and "k = ''AdditionalInfo'' \<or> k = ''ForceModeData'' \<or> k = ''RobotModeData''"
  shows "map_of a' k = map_of a k"
  using assms
  by (auto simp: parse_message_def split: sum.splits option.splits if_splits
           dest!: map_of_store[where k = k])


lemma parse_packet_robot_mode:
  assumes "parse_packet v a ps 0 pd = (v', Inr a')"
  shows "map_of a' ''RobotModeData'' \<noteq> None"
  using assms
  by (auto simp: parse_packet_def split: if_splits dest: map_of_store_same)

lemma parse_packet_other_version:
  assumes "parse_packet v a ps pt pd = (v', r)" and "pt \<noteq> 0"
  shows "v' = v"
  using assms by (auto simp: parse_packet_def split: if_splits)

lemma parse_packet_keeps_robot_mode:
  assumes "parse_packet v a ps pt pd = (v', Inr a')" and "map_of a ''RobotModeData'' \<noteq> None"
  shows "map_of a' ''RobotModeData'' \<noteq> None"
proof (cases "pt = 0")
  case True
  with assms(1) show ?thesis by (auto dest: parse_packet_robot_mode)
next
  case False
  have "map_of a' ''RobotModeData'' = map_of a ''RobotModeData''"
    using assms(1) False
    by (auto simp: parse_packet_def split: if_splits
             dest: map_of_store[where k = "''RobotModeData''"]
                   parse_message_keeps[where k = "''RobotModeData''"])
  with assms(2) show ?thesis by simp
qed

lemma parse_packet_below_3_2:
  assumes "parse_packet v a ps pt pd = (v', Inr a')" and "pt \<noteq> 0" and "v < (3, 2)"
    and "k = ''AdditionalInfo'' \<or> k = ''ForceModeData''"
  shows "map_of a' k = map_of a k"
  using assms
  by (auto simp: parse_packet_def split: if_splits
           dest: map_of_store[where k = k] parse_message_keeps[where k = k])


lemma parse_packet_raises_version:
  assumes "(3, 2) \<le> fst (parse_packet v a ps pt pd)" and "v < (3, 2)"
  shows "pt = 0 \<and> (ps = 46 \<or> ps = 47)"
  using assms by (auto simp: parse_packet_def split: if_splits)

lemma parse_packet_drops_7_8:
  assumes "v < (3, 2)" and "pt = 8 \<or> pt = 7"
  shows "parse_packet v a ps pt pd = (v, Inr a)"
  using assms by (auto simp: parse_packet_def)

text \<open>
  Claim C10: while the parser's version is below \<open>(3, 2)\<close>, a well-framed packet of type
  8 or 7 at the head of the data leaves no record and no change of version: the loop goes on
  with the bytes behind it. A batch parsed from a version below \<open>(3, 2)\<close> that holds
  AdditionalInfo or ForceModeData also holds RobotModeData, and the only packet that lifts
  the version from below \<open>(3, 2)\<close> to \<open>(3, 2)\<close> or more is a RobotModeData packet of
  declared size 46 or 47.
\<close>

theorem additional_info_force_mode_dropped_below_3_2:
  assumes low: "v < (3, 2)"
  shows "(\<forall>allData psize ptype pdata rest.
            analyze_header data = Inr (psize, ptype, pdata, rest) \<and> (ptype = 8 \<or> ptype = 7)
            \<longrightarrow> parse_loop v allData data = parse_loop v allData rest)
       \<and> (\<forall>v' batch k. parse v data = (v', Inr batch)
            \<and> (k = ''AdditionalInfo'' \<or> k = ''ForceModeData'') \<and> map_of batch k \<noteq> None
            \<longrightarrow> map_of batch ''RobotModeData'' \<noteq> None)
       \<and> (\<forall>a ps pt pd. (3, 2) \<le> fst (parse_packet v a ps pt pd)
            \<longrightarrow> pt = 0 \<and> (ps = 46 \<or> ps = 47))"
proof (intro conjI allI impI)
  fix allData psize ptype pdata rest
  assume h: "analyze_header data = Inr (psize, ptype, pdata, rest) \<and> (ptype = 8 \<or> ptype = 7)"
  then have ne: "data \<noteq> []" by (auto simp: analyze_header_def)
  from h have "parse_packet v allData psize ptype pdata = (v, Inr allData)"
    using parse_packet_drops_7_8[OF low] by blast
  with h ne show "parse_loop v allData data = parse_loop v allData rest"
    by (auto simp: parse_loop_step)
next
  fix v' batch k
  assume h: "parse v data = (v', Inr batch)
     \<and> (k = ''AdditionalInfo'' \<or> k = ''ForceModeData'') \<and> map_of batch k \<noteq> None"
  let ?I = "\<lambda>u (a::alldata). map_of a ''RobotModeData'' \<noteq> None
              \<or> (u < (3, 2) \<and> map_of a ''AdditionalInfo'' = None
                  \<and> map_of a ''ForceModeData'' = None)"
  have "?I v' batch"
  proof (rule parse_loop_invariant[where I = ?I and v = v and a = "[]" and data = data])
    fix u a ps pt pd u' a'
    assume I: "?I u a" and pp: "parse_packet u a ps pt pd = (u', Inr a')"
    show "?I u' a'"
    proof (cases "pt = 0")
      case True
      with pp show ?thesis by (auto dest: parse_packet_robot_mode)
    next
      case False
      from I show ?thesis
      proof
        assume "map_of a ''RobotModeData'' \<noteq> None"
        then show ?thesis using parse_packet_keeps_robot_mode[OF pp] by simp
      next
        assume lowu: "u < (3, 2) \<and> map_of a ''AdditionalInfo'' = None
                  \<and> map_of a ''ForceModeData'' = None"
        have "u' = u" using parse_packet_other_version[OF pp False] .
        moreover have "map_of a' ''AdditionalInfo'' = map_of a ''AdditionalInfo''"
          using parse_packet_below_3_2[OF pp False, of "''AdditionalInfo''"] lowu by simp
        moreover have "map_of a' ''ForceModeData'' = map_of a ''ForceModeData''"
          using parse_packet_below_3_2[OF pp False, of "''ForceModeData''"] lowu by simp
        ultimately show ?thesis using lowu by simp
      qed
    qed
  next
    show "?I v []" using low by simp
  next
    show "parse_loop v [] data = (v', Inr batch)" using h by (simp add: parse_def)
  qed
  with h show "map_of batch ''RobotModeData'' \<noteq> None" by auto
next
  fix a ps pt pd
  assume "(3, 2) \<le> fst (parse_packet v a ps pt pd)"
  then show "pt = 0" and "ps = 46 \<or> ps = 47"
    using parse_packet_raises_version[OF _ low] by blast+
qed

theorem additional_info_force_mode_dropped_below_3_2_witness:
  "(0, 0) < ((3, 2)::version)
   \<and> analyze_header [0,0,0,7,8,1,1] = Inr (7, 8, [0,0,0,7,8,1,1], [])
   \<and> parse_loop (0, 0) [] [0,0,0,7,8,1,1] = parse_loop (0, 0) [] []
   \<and> parse (0, 0) [0,0,0,7,8,1,1] = ((0, 0), Inr [])
   \<and> (\<exists>batch. parse (0, 0) ([0,0,0,46,0] @ replicate 41 0 @ [0,0,0,7,8,1,1]) = ((3, 2), Inr batch)
        \<and> map_of batch ''AdditionalInfo'' \<noteq> None
        \<and> map_of batch ''RobotModeData'' \<noteq> None)"
proof -
  define data where "data = [0,0,0,46,0] @ replicate 41 0 @ [0,0,0,7,8,1,1::byte]"
  have h: "(0, 0) < ((3, 2)::version)" by simp
  have a: "analyze_header [0,0,0,7,8,1,1] = Inr (7, 8, [0,0,0,7,8,1,1], [])" by code_simp
  have e: "parse (0, 0) [0,0,0,7,8,1,1] = ((0, 0), Inr [])" by code_simp
  have "fst (parse (0, 0) ([0,0,0,46,0] @ replicate 41 0 @ [0,0,0,7,8,1,1])) = (3, 2)
        \<and> (case snd (parse (0, 0) ([0,0,0,46,0] @ replicate 41 0 @ [0,0,0,7,8,1,1])) of
             Inl e \<Rightarrow> False | Inr batch \<Rightarrow> map_of batch ''AdditionalInfo'' \<noteq> None)"
    by code_simp
  then have "fst (parse (0, 0) data) = (3, 2)
        \<and> (case snd (parse (0, 0) data) of
             Inl e \<Rightarrow> False | Inr batch \<Rightarrow> map_of batch ''AdditionalInfo'' \<noteq> None)"
    by (simp only: data_def)
  then obtain batch where b: "parse (0, 0) data = ((3, 2), Inr batch)"
    and ai: "map_of batch ''AdditionalInfo'' \<noteq> None"
    by (cases "parse (0, 0) data") (auto split: sum.splits)
  have c1: "parse_loop (0, 0) [] [0,0,0,7,8,1,1] = parse_loop (0, 0) [] []"
    by (rule additional_info_force_mode_dropped_below_3_2[OF h, THEN conjunct1, rule_format,
               of "[0,0,0,7,8,1,1]" 7 8 "[0,0,0,7,8,1,1]" "[]" "[]"])
       (simp add: a)
  have c2: "map_of batch ''RobotModeData'' \<noteq> None"
    by (rule additional_info_force_mode_dropped_below_3_2[OF h, THEN conjunct2, THEN conjunct1,
               rule_format, of data "(3, 2)" batch "''AdditionalInfo''"])
       (simp add: b ai)
  have "\<exists>batch. parse (0, 0) data = ((3, 2), Inr batch)
        \<and> map_of batch ''AdditionalInfo'' \<noteq> None
        \<and> map_of batch ''RobotModeData'' \<noteq> None"
    using b ai c2 by (intro exI[of _ batch] conjI)
  then have ex: "\<exists>batch. parse (0, 0) ([0,0,0,46,0] @ replicate 41 0 @ [0,0,0,7,8,1,1])
          = ((3, 2), Inr batch)
        \<and> map_of batch ''AdditionalInfo'' \<noteq> None
        \<and> map_of batch ''RobotModeData'' \<noteq> None"
    by (simp only: data_def)
  show ?thesis
    by (intro conjI) (rule h a c1 e ex)+
qed

subsection \<open>\<open>find_first_packet\<close>\<close>

lemma be_unsigned_snoc: "be_unsigned (bs @ [b]) = be_unsigned bs * 256 + uint b"
  by (simp add: be_unsigned_def)

lemma be_unsigned_bounds: "0 \<le> be_unsigned bs \<and> be_unsigned bs < 256 ^ length bs"
proof (induction bs rule: rev_induct)
  case Nil
  show ?case by (simp add: be_unsigned_def)
next
  case (snoc b bs)
  have "uint b < 256" using uint_bounded[of b] by simp
  moreover have "0 \<le> uint b" by simp
  moreover have "be_unsigned bs + 1 \<le> 256 ^ length bs" using snoc by simp
  then have "(be_unsigned bs + 1) * 256 \<le> 256 ^ length bs * 256"
    by (rule mult_right_mono) simp
  ultimately show ?case using snoc by (simp add: be_unsigned_snoc algebra_simps)
qed

lemma be_signed_4:
  assumes "length bs = 4"
  shows "be_signed bs = (if be_unsigned bs < 2 ^ 31 then be_unsigned bs else be_unsigned bs - 2 ^ 32)"
  using assms by (simp add: be_signed_def Let_def)

lemma header_test_iff:
  assumes "5 \<le> length d"
  shows "get_header d = Inr (be_signed (take 4 d), unat (d ! 4))"
    and "\<not> (be_signed (take 4 d) < 5 \<or> be_signed (take 4 d) > 2000 \<or> unat (d ! 4) \<noteq> 16)
           \<longleftrightarrow> valid_header d"
    and "valid_header d \<Longrightarrow> be_signed (take 4 d) = declared_size d"
proof -
  show "get_header d = Inr (be_signed (take 4 d), unat (d ! 4))"
    using assms by (simp add: get_header_def)
  have len: "length (take 4 d) = 4" using assms by simp
  have b: "0 \<le> be_unsigned (take 4 d)" "be_unsigned (take 4 d) < 2 ^ 32"
    using be_unsigned_bounds[of "take 4 d"] len by simp_all
  show "\<not> (be_signed (take 4 d) < 5 \<or> be_signed (take 4 d) > 2000 \<or> unat (d ! 4) \<noteq> 16)
           \<longleftrightarrow> valid_header d"
    using assms b by (auto simp: be_signed_4[OF len] valid_header_def declared_size_def packet_type_def)
  show "valid_header d \<Longrightarrow> be_signed (take 4 d) = declared_size d"
    using b by (auto simp: be_signed_4[OF len] valid_header_def declared_size_def)
qed

lemma find_first_packet_short: "length d < 5 \<Longrightarrow> find_first_packet d = None"
  by (simp add: find_first_packet.simps[of d])

lemma find_first_packet_skip:
  assumes "5 \<le> length d" and "\<not> valid_header d"
  shows "find_first_packet d = find_first_packet (drop 1 d)"
  using assms header_test_iff(2)[OF assms(1)]
  by (simp add: find_first_packet.simps[of d] header_test_iff(1) slice_from_def)

lemma find_first_packet_valid:
  assumes "valid_header d"
  shows "find_first_packet d =
           (if declared_size d \<le> int (length d)
            then Some (take (nat (declared_size d)) d, drop (nat (declared_size d)) d)
            else None)"
proof -
  have len: "5 \<le> length d" using assms by (simp add: valid_header_def)
  have pos: "0 \<le> declared_size d" using assms by (simp add: valid_header_def)
  show ?thesis
    using assms header_test_iff(2)[OF len] header_test_iff(3)[OF len] pos
    by (simp add: find_first_packet.simps[of d] header_test_iff(1)[OF len]
          slice_from_def slice_to_def)
qed

lemma find_first_packet_at:
  assumes "\<forall>i<k. \<not> valid_header (drop i data)" and "valid_header (drop k data)"
  shows "find_first_packet data = find_first_packet (drop k data)"
  using assms
proof (induction k arbitrary: data)
  case 0
  show ?case by simp
next
  case (Suc k)
  have v: "valid_header (drop k (drop 1 data))" using Suc.prems(2) by simp
  then have "5 \<le> length (drop k (drop 1 data))" by (simp add: valid_header_def)
  then have len: "5 \<le> length data" by simp
  have nv: "\<not> valid_header data" using Suc.prems(1) by (auto dest: spec[of _ 0])
  have "\<forall>i<k. \<not> valid_header (drop i (drop 1 data))"
    using Suc.prems(1) by auto
  from Suc.IH[OF this v] find_first_packet_skip[OF len nv] show ?case by simp
qed

lemma find_first_packet_none:
  assumes "\<forall>i. \<not> valid_header (drop i data)"
  shows "find_first_packet data = None"
  using assms
proof (induction data)
  case Nil
  show ?case by (simp add: find_first_packet_short)
next
  case (Cons x xs)
  have "\<forall>i. \<not> valid_header (drop i xs)"
  proof
    fix i show "\<not> valid_header (drop i xs)" using Cons.prems[THEN spec, of "Suc i"] by simp
  qed
  then have IH: "find_first_packet xs = None" by (rule Cons.IH)
  have nv: "\<not> valid_header (x # xs)" using Cons.prems[THEN spec, of 0] by simp
  show ?case
  proof (cases "5 \<le> length (x # xs)")
    case True
    from find_first_packet_skip[OF True nv] IH show ?thesis by simp
  next
    case False
    then show ?thesis by (simp add: find_first_packet_short)
  qed
qed

text \<open>
  Claim C5: \<open>find_first_packet\<close> drops one leading byte after the other past every
  position whose header is not valid. At the first position \<open>k\<close> with a valid header it
  returns the first \<open>declared_size\<close> bytes from there as the frame, with all bytes after
  them, if that many bytes are in the buffer, and \<open>None\<close> if fewer are. If no position has
  a valid header (in particular if fewer than five bytes remain) it returns \<open>None\<close>.
  The function is total, so it always returns.
\<close>

theorem find_first_packet_scan:
  "(\<forall>k. (\<forall>i<k. \<not> valid_header (drop i data)) \<and> valid_header (drop k data) \<longrightarrow>
        find_first_packet data =
          (if declared_size (drop k data) \<le> int (length (drop k data))
           then Some (take (nat (declared_size (drop k data))) (drop k data),
                      drop (nat (declared_size (drop k data))) (drop k data))
           else None))
   \<and> ((\<forall>i. \<not> valid_header (drop i data)) \<longrightarrow> find_first_packet data = None)"
  using find_first_packet_at[of _ data] find_first_packet_valid find_first_packet_none[of data]
  by (metis (no_types, lifting))


theorem find_first_packet_scan_witness:
  "\<not> valid_header (drop 0 [1,2,0,0,0,10,16, 0,0,0,5,9, 7,7])
   \<and> \<not> valid_header (drop 1 [1,2,0,0,0,10,16, 0,0,0,5,9, 7,7])
   \<and> valid_header (drop 2 [1,2,0,0,0,10,16, 0,0,0,5,9, 7,7])
   \<and> find_first_packet [1,2,0,0,0,10,16, 0,0,0,5,9, 7,7]
       = Some ([0,0,0,10,16, 0,0,0,5,9], [7,7])
   \<and> find_first_packet [1,2,3] = None"
proof -
  define D where "D = [1,2,0,0,0,10,16, 0,0,0,5,9, 7,7::byte]"
  have n0: "\<not> valid_header (drop 0 D)" unfolding D_def by code_simp
  have n1: "\<not> valid_header (drop 1 D)" unfolding D_def by code_simp
  have h1: "\<forall>i<2. \<not> valid_header (drop i D)"
  proof (intro allI impI)
    fix i :: nat assume "i < 2"
    then have "i = 0 \<or> i = 1" by arith
    then show "\<not> valid_header (drop i D)" using n0 n1 by auto
  qed
  have h2: "valid_header (drop 2 D)" unfolding D_def by code_simp
  have ev: "(if declared_size (drop 2 D) \<le> int (length (drop 2 D))
           then Some (take (nat (declared_size (drop 2 D))) (drop 2 D),
                      drop (nat (declared_size (drop 2 D))) (drop 2 D))
           else None) = Some ([0,0,0,10,16, 0,0,0,5,9], [7,7])"
    unfolding D_def by code_simp
  have "find_first_packet D =
          (if declared_size (drop 2 D) \<le> int (length (drop 2 D))
           then Some (take (nat (declared_size (drop 2 D))) (drop 2 D),
                      drop (nat (declared_size (drop 2 D))) (drop 2 D))
           else None)"
    by (rule find_first_packet_scan[THEN conjunct1, rule_format, of 2 D]) (intro conjI h1 h2)
  then have c: "find_first_packet D = Some ([0,0,0,10,16, 0,0,0,5,9], [7,7])"
    using ev by (rule trans)
  have h3: "\<forall>i. \<not> valid_header (drop i [1,2,3])"
  proof
    fix i :: nat
    have "length (drop i [1,2,3::byte]) < 5" by simp
    then show "\<not> valid_header (drop i [1,2,3])" unfolding valid_header_def by linarith
  qed
  have c3: "find_first_packet [1,2,3] = None"
    by (rule find_first_packet_scan[THEN conjunct2, rule_format, of "[1,2,3]"]) (rule h3[rule_format])
  show ?thesis
    using n0 n1 h2 c c3 unfolding D_def by (intro conjI)
qed

subsection \<open>Popup messages\<close>

lemma be_unsigned_single: "be_unsigned [b] = uint b"
  by (simp add: be_unsigned_def)

lemma be_signed_two: "be_signed [2] = 2"
  by (simp add: be_signed_def be_unsigned_def)

lemma slice_int: "slice_to xs (int n) = take n xs" "slice_from xs (int n) = drop n xs"
  by (simp_all add: slice_to_def slice_from_def)

lemma slice_uint:
  "slice_to xs (uint (b::byte)) = take (unat b) xs"
  "slice_from xs (uint (b::byte)) = drop (unat b) xs"
  by (simp_all add: slice_to_def slice_from_def)

lemma popup_header:
  assumes "be_signed [h0, h1, h2, h3] = 18 + int (length rest)"
  shows "analyze_header
           ([h0, h1, h2, h3, 20, t0, t1, t2, t3, t4, t5, t6, t7, src, 2, w, e, tsz] @ rest) =
         Inr (18 + int (length rest), 20,
              [h0, h1, h2, h3, 20, t0, t1, t2, t3, t4, t5, t6, t7, src, 2, w, e, tsz] @ rest, [])"
proof -
  have n: "nat (18 + int (length rest)) = 18 + length rest" by simp
  show ?thesis
    using assms
    by (simp add: analyze_header_def get_header_def slice_to_def slice_from_def n)
qed

lemma popup_common:
  "get_data ([h0, h1, h2, h3, 20, t0, t1, t2, t3, t4, t5, t6, t7, src, 2, w, e, tsz] @ rest)
     ''!iB Qbb'' names_message =
   Inr [(''size'', VInt (be_signed [h0, h1, h2, h3])), (''type'', VInt 20),
        (''timestamp'', VInt (be_unsigned [t0, t1, t2, t3, t4, t5, t6, t7])),
        (''source'', VInt (be_signed [src])), (''robotMessageType'', VInt 2)]"
  by (simp add: get_data_def strip_def is_space_def names_message_def get_data_loop.simps
        calcsize_def unpack_def be_unsigned_single be_signed_two)


lemma popup_record:
  "get_data ([h0, h1, h2, h3, 20, t0, t1, t2, t3, t4, t5, t6, t7, src, 2, w, e, tsz] @ rest)
     ''!iBQbb ??BAcAc''
     (names_message @ [''warning'', ''error'', ''titleSize'', ''messageTitle'', ''messageText'']) =
   Inr [(''size'', VInt (be_signed [h0, h1, h2, h3])), (''type'', VInt 20),
        (''timestamp'', VInt (be_unsigned [t0, t1, t2, t3, t4, t5, t6, t7])),
        (''source'', VInt (be_signed [src])), (''robotMessageType'', VInt 2),
        (''warning'', VBool (w \<noteq> 0)), (''error'', VBool (e \<noteq> 0)),
        (''titleSize'', VInt (uint tsz)),
        (''messageTitle'', VBytes (take (unat tsz) rest)),
        (''messageText'', VBytes (drop (unat tsz) rest))]"
  by (simp add: get_data_def strip_def is_space_def names_message_def get_data_loop.simps
        calcsize_def unpack_def be_unsigned_single be_signed_two prev_name_def endswith_def
        slice_uint slice_int uint_0_iff)


text \<open>
  Claim C8: a frame of packet type 20 whose \<open>robotMessageType\<close> is 2 (the declared size
  being the length of the frame) is decoded into a \<open>popupMessage\<close> record: \<open>warning\<close> and
  \<open>error\<close> are the two booleans, \<open>messageTitle\<close> is the \<open>titleSize\<close> bytes that follow
  the \<open>titleSize\<close> byte, and \<open>messageText\<close> is every byte after the title, whatever
  the lengths of title and text. The version is not changed.
\<close>

theorem popup_message_decoded:
  assumes "be_signed [h0, h1, h2, h3] = int (18 + length rest)"
  shows "parse v ([h0, h1, h2, h3, 20, t0, t1, t2, t3, t4, t5, t6, t7, src, 2, w, e, tsz] @ rest) =
         (v, Inr [(''popupMessage'',
            [(''size'', VInt (int (18 + length rest))), (''type'', VInt 20),
             (''timestamp'', VInt (be_unsigned [t0, t1, t2, t3, t4, t5, t6, t7])),
             (''source'', VInt (be_signed [src])), (''robotMessageType'', VInt 2),
             (''warning'', VBool (w \<noteq> 0)), (''error'', VBool (e \<noteq> 0)),
             (''titleSize'', VInt (uint tsz)),
             (''messageTitle'', VBytes (take (unat tsz) rest)),
             (''messageText'', VBytes (drop (unat tsz) rest))])])"
proof -
  let ?frame = "[h0, h1, h2, h3, 20, t0, t1, t2, t3, t4, t5, t6, t7, src, 2, w, e, tsz] @ rest"
  have sz: "be_signed [h0, h1, h2, h3] = 18 + int (length rest)" using assms by simp
  have ne: "?frame \<noteq> []" by simp
  have msg: "parse_message [] ?frame =
      Inr [(''popupMessage'',
            [(''size'', VInt (18 + int (length rest))), (''type'', VInt 20),
             (''timestamp'', VInt (be_unsigned [t0, t1, t2, t3, t4, t5, t6, t7])),
             (''source'', VInt (be_signed [src])), (''robotMessageType'', VInt 2),
             (''warning'', VBool (w \<noteq> 0)), (''error'', VBool (e \<noteq> 0)),
             (''titleSize'', VInt (uint tsz)),
             (''messageTitle'', VBytes (take (unat tsz) rest)),
             (''messageText'', VBytes (drop (unat tsz) rest))])]"
    unfolding parse_message_def popup_common popup_record
    using sz by (simp add: store_def)
  have pkt: "parse_packet v [] (18 + int (length rest)) 20 ?frame = (v, parse_message [] ?frame)"
    by (simp add: parse_packet_def)
  have "parse_loop v [] ?frame =
          (case parse_packet v [] (18 + int (length rest)) 20 ?frame of
              (v', Inl e) \<Rightarrow> (v', Inl e)
            | (v', Inr a') \<Rightarrow>
                parse_loop v' a' (if (20::nat) = 16 then slice_from (?frame @ []) 5 else []))"
    by (rule parse_loop_step[OF ne popup_header[OF sz]])
  also have "\<dots> = (v, parse_message [] ?frame)"
    unfolding pkt msg by (simp add: parse_loop_empty)
  finally show ?thesis
    unfolding parse_def msg by simp
qed


theorem popup_message_decoded_witness:
  "be_signed [0, 0, 0, 26] = int (18 + length [65, 66, 67, 68, 69, 70, 71, 72 :: byte])
   \<and> parse (0, 0)
         [0, 0, 0, 26, 20, 0, 0, 0, 0, 0, 0, 0, 1, 255, 2, 1, 0, 3, 65, 66, 67, 68, 69, 70, 71, 72] =
       ((0, 0), Inr [(''popupMessage'',
            [(''size'', VInt 26), (''type'', VInt 20), (''timestamp'', VInt 1),
             (''source'', VInt (- 1)), (''robotMessageType'', VInt 2),
             (''warning'', VBool True), (''error'', VBool False),
             (''titleSize'', VInt 3),
             (''messageTitle'', VBytes [65, 66, 67]),
             (''messageText'', VBytes [68, 69, 70, 71, 72])])])"
proof -
  have h: "be_signed [0, 0, 0, 26] = int (18 + length [65, 66, 67, 68, 69, 70, 71, 72 :: byte])"
    by (simp add: be_signed_def be_unsigned_def)
  have ts: "be_unsigned [0, 0, 0, 0, 0, 0, 0, 1] = 1" by (simp add: be_unsigned_def)
  have sr: "be_signed [255] = - 1" by (simp add: be_signed_def be_unsigned_def)
  show ?thesis
    using popup_message_decoded[OF h, of "(0, 0)" 0 0 0 0 0 0 0 1 255 1 0 3] h
    by (simp add: ts sr)
qed

subsection \<open>Digital inputs and outputs\<close>

text \<open>Entries of the dictionary under names that \<open>_get_data\<close> has already passed are not
  touched by the rest of its loop.\<close>

lemma get_data_loop_keeps:
  assumes "get_data_loop fmt kn t d i j = Inr r" and "k \<notin> set (drop i kn)"
  shows "map_of r k = map_of d k"
  using assms
proof (induction fmt kn t d i j rule: get_data_loop.induct)
  case (1 fmt kn t d i j)
  have in_drop: "i < length kn \<Longrightarrow> kn ! i \<in> set (drop i kn)"
    by (metis Cons_nth_drop_Suc list.set_intros(1))
  have sub: "set (drop (i + 1) kn) \<subseteq> set (drop i kn)"
    by (metis add.commute drop_drop set_drop_subset)
  show ?case
  proof (cases "j < length fmt \<and> i < length kn")
    case False
    with "1.prems" show ?thesis by (simp add: get_data_loop.simps[of fmt kn t d i j])
  next
    case True
    then have ne: "kn ! i \<noteq> k" using in_drop "1.prems"(2) by auto
    have k': "k \<notin> set (drop (i + 1) kn)" using sub "1.prems"(2) by auto
    show ?thesis
      using "1.prems"(1) True "1.IH"(1)[OF True _ _ "1.prems"(2)]
        "1.IH"(2)[OF True _ _ _ _ k'] "1.IH"(3)[OF True _ _ _ _ _ k'] ne
      by (subst (asm) get_data_loop.simps)
         (auto simp: update_conv' split: if_splits sum.splits option.splits)
  qed
qed


lemma get_data_loop_fixed:
  assumes "get_data_loop fmt kn t d i j = Inr r"
    and "j < length fmt" and "i < length kn"
    and "fmt ! j \<noteq> CHR '' ''" and "fmt ! j \<noteq> CHR ''!''" and "fmt ! j \<noteq> CHR ''>''"
    and "fmt ! j \<noteq> CHR ''<''" and "fmt ! j \<noteq> CHR ''A''"
    and "calcsize (fmt ! j) = Some n"
  shows "get_data_loop fmt kn (drop n t)
           (AList.update (kn ! i) (unpack (fmt ! j) (take n t)) d) (Suc i) (Suc j) = Inr r"
  using assms
  by (subst (asm) get_data_loop.simps) (auto split: if_splits)

lemma master_board_bits:
  assumes dec: "get_data pdata fmt names_MasterBoardData = Inr r"
    and fmt: "fmt = ''iBiibbddbbddffffBBb'' \<or> fmt = ''iBhhbbddbbddffffBBb''"
  shows "\<exists>inp outp. map_of r ''digitalInputBits'' = Some (VInt inp)
           \<and> map_of r ''digitalOutputBits'' = Some (VInt outp)"
proof -
  let ?kn = names_MasterBoardData
  obtain n where n2: "calcsize (fmt ! Suc (Suc 0)) = Some n"
      and n3: "calcsize (fmt ! Suc (Suc (Suc 0))) = Some n"
      and u2: "\<exists>x. unpack (fmt ! Suc (Suc 0)) bs = VInt x"
      and u3: "\<exists>x. unpack (fmt ! Suc (Suc (Suc 0))) bs = VInt x" for bs
    using fmt by (auto simp: calcsize_def unpack_def)
  have s0: "get_data_loop fmt ?kn pdata [] 0 0 = Inr r"
    using dec fmt by (auto simp: get_data_def strip_def is_space_def)
  obtain t1 d1 where s1: "get_data_loop fmt ?kn t1 d1 (Suc 0) (Suc 0) = Inr r"
    and d1: "map_of d1 ''digitalInputBits'' = None"
    using get_data_loop_fixed[OF s0, of 4] fmt
    by (auto simp: names_MasterBoardData_def calcsize_def)
  obtain t2 d2 where s2: "get_data_loop fmt ?kn t2 d2 (Suc (Suc 0)) (Suc (Suc 0)) = Inr r"
    using get_data_loop_fixed[OF s1, of 1] fmt
    by (auto simp: names_MasterBoardData_def calcsize_def)
  obtain t3 d3 x where s3: "get_data_loop fmt ?kn t3 d3 (Suc (Suc (Suc 0))) (Suc (Suc (Suc 0))) = Inr r"
    and d3: "map_of d3 ''digitalInputBits'' = Some (VInt x)"
  proof -
    obtain x where x: "unpack (fmt ! Suc (Suc 0)) (take n t2) = VInt x" using u2 by blast
    have "get_data_loop fmt ?kn (drop n t2)
            (AList.update ''digitalInputBits'' (VInt x) d2) (Suc (Suc (Suc 0))) (Suc (Suc (Suc 0)))
          = Inr r"
      using get_data_loop_fixed[OF s2 _ _ _ _ _ _ _ n2] fmt x
      by (auto simp: names_MasterBoardData_def)
    then show ?thesis using that by (simp add: update_conv')
  qed
  obtain t4 d4 y where
    s4: "get_data_loop fmt ?kn t4 d4 (Suc (Suc (Suc (Suc 0)))) (Suc (Suc (Suc (Suc 0)))) = Inr r"
    and d4: "map_of d4 ''digitalInputBits'' = Some (VInt x)"
            "map_of d4 ''digitalOutputBits'' = Some (VInt y)"
  proof -
    obtain y where y: "unpack (fmt ! Suc (Suc (Suc 0))) (take n t3) = VInt y" using u3 by blast
    have "get_data_loop fmt ?kn (drop n t3)
            (AList.update ''digitalOutputBits'' (VInt y) d3)
            (Suc (Suc (Suc (Suc 0)))) (Suc (Suc (Suc (Suc 0)))) = Inr r"
      using get_data_loop_fixed[OF s3 _ _ _ _ _ _ _ n3] fmt y
      by (auto simp: names_MasterBoardData_def)
    then show ?thesis using that d3 by (simp add: update_conv')
  qed
  have "map_of r ''digitalInputBits'' = map_of d4 ''digitalInputBits''"
    by (rule get_data_loop_keeps[OF s4]) (simp add: names_MasterBoardData_def)
  moreover have "map_of r ''digitalOutputBits'' = map_of d4 ''digitalOutputBits''"
    by (rule get_data_loop_keeps[OF s4]) (simp add: names_MasterBoardData_def)
  ultimately show ?thesis using d4 by simp
qed



lemma parse_message_keeps_mb:
  assumes "parse_message a pd = Inr a'"
  shows "map_of a' ''MasterBoardData'' = map_of a ''MasterBoardData''"
  using assms
  by (auto simp: parse_message_def split: sum.splits option.splits if_splits
           dest!: map_of_store[where k = "''MasterBoardData''"])

lemma parse_packet_master_board:
  assumes pp: "parse_packet v a ps pt pd = (v', Inr a')"
    and new: "map_of a' ''MasterBoardData'' = Some r"
    and old: "map_of a ''MasterBoardData'' \<noteq> Some r"
  shows "\<exists>inp outp. map_of r ''digitalInputBits'' = Some (VInt inp)
           \<and> map_of r ''digitalOutputBits'' = Some (VInt outp)"
proof (cases "pt = 3")
  case True
  then obtain fmt where st: "store ''MasterBoardData'' (get_data pd fmt names_MasterBoardData) a = Inr a'"
    and fmt: "fmt = ''iBiibbddbbddffffBBb'' \<or> fmt = ''iBhhbbddbbddffffBBb''"
    using pp by (auto simp: parse_packet_def split: if_splits)
  from st new have "get_data pd fmt names_MasterBoardData = Inr r"
    by (auto simp: store_def update_conv' split: sum.splits)
  then show ?thesis using fmt by (rule master_board_bits)
next
  case False
  have "map_of a' ''MasterBoardData'' = map_of a ''MasterBoardData''"
    using pp False
    by (auto simp: parse_packet_def split: if_splits
             dest: map_of_store[where k = "''MasterBoardData''"] parse_message_keeps_mb)
  with new old show ?thesis by simp
qed

lemma parse_master_board:
  assumes "parse v data = (v', Inr batch)" and "map_of batch ''MasterBoardData'' = Some r"
  shows "\<exists>inp outp. map_of r ''digitalInputBits'' = Some (VInt inp)
           \<and> map_of r ''digitalOutputBits'' = Some (VInt outp)"
proof -
  let ?I = "\<lambda>(u::version) (a::alldata). \<forall>r. map_of a ''MasterBoardData'' = Some r \<longrightarrow>
              (\<exists>inp outp. map_of r ''digitalInputBits'' = Some (VInt inp)
                 \<and> map_of r ''digitalOutputBits'' = Some (VInt outp))"
  have "?I v' batch"
  proof (rule parse_loop_invariant[where I = ?I and v = v and a = "[]" and data = data])
    fix u a ps pt pd u' a'
    assume I: "?I u a" and pp: "parse_packet u a ps pt pd = (u', Inr a')"
    show "?I u' a'"
    proof (intro allI impI)
      fix r assume new: "map_of a' ''MasterBoardData'' = Some r"
      show "\<exists>inp outp. map_of r ''digitalInputBits'' = Some (VInt inp)
                 \<and> map_of r ''digitalOutputBits'' = Some (VInt outp)"
      proof (cases "map_of a ''MasterBoardData'' = Some r")
        case True
        with I show ?thesis by blast
      next
        case False
        with pp new show ?thesis by (rule parse_packet_master_board)
      qed
    qed
  next
    show "?I v []" by simp
  next
    show "parse_loop v [] data = (v', Inr batch)" using assms(1) by (simp add: parse_def)
  qed
  with assms(2) show ?thesis by blast
qed

lemma get_digital_bit_of_record:
  assumes "map_of (dict st) ''MasterBoardData'' = Some r"
    and "map_of r ''digitalOutputBits'' = Some (VInt outp)"
    and "map_of r ''digitalInputBits'' = Some (VInt inp)"
  shows "get_digital_out st (int n) = Inr (if bit outp n then 1 else 0)
       \<and> get_digital_in st (int n) = Inr (if bit inp n then 1 else 0)"
  using assms
  by (simp add: get_digital_out_def get_digital_in_def field_def test_bit_def
        bit_iff_and_push_bit_not_eq_0)

text \<open>
  Claim C9: once the state dictionary (a batch that \<open>parse\<close> returned) holds a
  MasterBoardData record, that record has integer \<open>digitalInputBits\<close> and
  \<open>digitalOutputBits\<close>, and for every channel number \<open>n\<close>, \<open>get_digital_out(n)\<close> is 1
  if bit \<open>n\<close> of \<open>digitalOutputBits\<close> is set and 0 otherwise, and \<open>get_digital_in(n)\<close>
  likewise for \<open>digitalInputBits\<close>.
\<close>

theorem get_digital_bit:
  assumes "parse v data = (v', Inr (dict st))"
    and "map_of (dict st) ''MasterBoardData'' = Some r"
  shows "\<exists>inp outp. map_of r ''digitalInputBits'' = Some (VInt inp)
           \<and> map_of r ''digitalOutputBits'' = Some (VInt outp)
           \<and> (\<forall>n. get_digital_out st (int n) = Inr (if bit outp n then 1 else 0)
                  \<and> get_digital_in st (int n) = Inr (if bit inp n then 1 else 0))"
proof -
  obtain inp outp where b: "map_of r ''digitalInputBits'' = Some (VInt inp)"
      "map_of r ''digitalOutputBits'' = Some (VInt outp)"
    using parse_master_board[OF assms] by blast
  show ?thesis
    using get_digital_bit_of_record[OF assms(2) b(2) b(1)] b by blast
qed

theorem get_digital_bit_witness:
  "get_digital_out
     (init_monitor\<lparr>dict := [(''MasterBoardData'',
        [(''size'', VInt 61), (''type'', VInt 3),
         (''digitalInputBits'', VInt 3), (''digitalOutputBits'', VInt 32),
         (''analogInputRange0'', VInt 0), (''analogInputRange1'', VInt 0),
         (''analogInput0'', VFloat [0, 0, 0, 0, 0, 0, 0, 0]),
         (''analogInput1'', VFloat [0, 0, 0, 0, 0, 0, 0, 0]),
         (''analogInputDomain0'', VInt 0), (''analogInputDomain1'', VInt 0),
         (''analogOutput0'', VFloat [0, 0, 0, 0, 0, 0, 0, 0]),
         (''analogOutput1'', VFloat [0, 0, 0, 0, 0, 0, 0, 0]),
         (''masterBoardTemperature'', VFloat [0, 0, 0, 0]),
         (''robotVoltage48V'', VFloat [0, 0, 0, 0]),
         (''robotCurrent'', VFloat [0, 0, 0, 0]),
         (''masterIOCurrent'', VFloat [0, 0, 0, 0])])]\<rparr>) 5 = Inr 1
   \<and> get_digital_in
     (init_monitor\<lparr>dict := [(''MasterBoardData'',
        [(''size'', VInt 61), (''type'', VInt 3),
         (''digitalInputBits'', VInt 3), (''digitalOutputBits'', VInt 32),
         (''analogInputRange0'', VInt 0), (''analogInputRange1'', VInt 0),
         (''analogInput0'', VFloat [0, 0, 0, 0, 0, 0, 0, 0]),
         (''analogInput1'', VFloat [0, 0, 0, 0, 0, 0, 0, 0]),
         (''analogInputDomain0'', VInt 0), (''analogInputDomain1'', VInt 0),
         (''analogOutput0'', VFloat [0, 0, 0, 0, 0, 0, 0, 0]),
         (''analogOutput1'', VFloat [0, 0, 0, 0, 0, 0, 0, 0]),
         (''masterBoardTemperature'', VFloat [0, 0, 0, 0]),
         (''robotVoltage48V'', VFloat [0, 0, 0, 0]),
         (''robotCurrent'', VFloat [0, 0, 0, 0]),
         (''masterIOCurrent'', VFloat [0, 0, 0, 0])])]\<rparr>) 5 = Inr 0
   \<and> parse (0, 0) ([0,0,0,61,3, 0,3, 0,32] @ replicate 52 0) =
       ((0, 0), Inr [(''MasterBoardData'',
        [(''size'', VInt 61), (''type'', VInt 3),
         (''digitalInputBits'', VInt 3), (''digitalOutputBits'', VInt 32),
         (''analogInputRange0'', VInt 0), (''analogInputRange1'', VInt 0),
         (''analogInput0'', VFloat [0, 0, 0, 0, 0, 0, 0, 0]),
         (''analogInput1'', VFloat [0, 0, 0, 0, 0, 0, 0, 0]),
         (''analogInputDomain0'', VInt 0), (''analogInputDomain1'', VInt 0),
         (''analogOutput0'', VFloat [0, 0, 0, 0, 0, 0, 0, 0]),
         (''analogOutput1'', VFloat [0, 0, 0, 0, 0, 0, 0, 0]),
         (''masterBoardTemperature'', VFloat [0, 0, 0, 0]),
         (''robotVoltage48V'', VFloat [0, 0, 0, 0]),
         (''robotCurrent'', VFloat [0, 0, 0, 0]),
         (''masterIOCurrent'', VFloat [0, 0, 0, 0])])])"
proof -
  define r :: pydict where "r =
        [(''size'', VInt 61), (''type'', VInt 3),
         (''digitalInputBits'', VInt 3), (''digitalOutputBits'', VInt 32),
         (''analogInputRange0'', VInt 0), (''analogInputRange1'', VInt 0),
         (''analogInput0'', VFloat [0, 0, 0, 0, 0, 0, 0, 0]),
         (''analogInput1'', VFloat [0, 0, 0, 0, 0, 0, 0, 0]),
         (''analogInputDomain0'', VInt 0), (''analogInputDomain1'', VInt 0),
         (''analogOutput0'', VFloat [0, 0, 0, 0, 0, 0, 0, 0]),
         (''analogOutput1'', VFloat [0, 0, 0, 0, 0, 0, 0, 0]),
         (''masterBoardTemperature'', VFloat [0, 0, 0, 0]),
         (''robotVoltage48V'', VFloat [0, 0, 0, 0]),
         (''robotCurrent'', VFloat [0, 0, 0, 0]),
         (''masterIOCurrent'', VFloat [0, 0, 0, 0])]"
  define st where "st = init_monitor\<lparr>dict := [(''MasterBoardData'', r)]\<rparr>"
  have p0: "parse (0, 0) ([0,0,0,61,3, 0,3, 0,32] @ replicate 52 0) =
       ((0, 0), Inr [(''MasterBoardData'',
        [(''size'', VInt 61), (''type'', VInt 3),
         (''digitalInputBits'', VInt 3), (''digitalOutputBits'', VInt 32),
         (''analogInputRange0'', VInt 0), (''analogInputRange1'', VInt 0),
         (''analogInput0'', VFloat [0, 0, 0, 0, 0, 0, 0, 0]),
         (''analogInput1'', VFloat [0, 0, 0, 0, 0, 0, 0, 0]),
         (''analogInputDomain0'', VInt 0), (''analogInputDomain1'', VInt 0),
         (''analogOutput0'', VFloat [0, 0, 0, 0, 0, 0, 0, 0]),
         (''analogOutput1'', VFloat [0, 0, 0, 0, 0, 0, 0, 0]),
         (''masterBoardTemperature'', VFloat [0, 0, 0, 0]),
         (''robotVoltage48V'', VFloat [0, 0, 0, 0]),
         (''robotCurrent'', VFloat [0, 0, 0, 0]),
         (''masterIOCurrent'', VFloat [0, 0, 0, 0])])])"
    by code_simp
  have d: "dict st = [(''MasterBoardData'', r)]" by (simp add: st_def)
  have p: "parse (0, 0) ([0,0,0,61,3, 0,3, 0,32] @ replicate 52 0) = ((0, 0), Inr (dict st))"
    unfolding d r_def by (rule p0)
  have m: "map_of (dict st) ''MasterBoardData'' = Some r" by (simp add: d)
  have ri: "map_of r ''digitalInputBits'' = Some (VInt 3)"
    and ro: "map_of r ''digitalOutputBits'' = Some (VInt 32)"
    by (simp_all add: r_def)
  have b1: "bit (32::int) 5" by (simp add: bit_iff_odd)
  have b2: "\<not> bit (3::int) 5" by (simp add: bit_iff_odd)
  obtain inp outp where "map_of r ''digitalInputBits'' = Some (VInt inp)"
      and "map_of r ''digitalOutputBits'' = Some (VInt outp)"
      and g: "get_digital_out st (int 5) = Inr (if bit outp 5 then 1 else 0)
              \<and> get_digital_in st (int 5) = Inr (if bit inp 5 then 1 else 0)"
    using get_digital_bit[OF p m] by blast
  with ri ro have "inp = 3" "outp = 32" by simp_all
  with g b1 b2 have "get_digital_out st 5 = Inr 1 \<and> get_digital_in st 5 = Inr 0" by simp
  then show ?thesis
    using p0 unfolding st_def r_def by (intro conjI) (elim conjE, assumption)+
qed

subsection \<open>The receive loop on a decoded batch\<close>

text \<open>Every RobotModeData record that \<open>parse\<close> stores has the fields that
  \<open>check_if_running\<close> reads, so \<open>check_if_running\<close> raises no KeyError.\<close>

lemma robot_mode_fields_30:
  assumes "get_data pd ''!IBQ???????BBdd'' names_RobotModeData_30 = Inr r"
  shows "has_health_fields r"
  using assms unfolding has_health_fields_def
  by (auto simp: get_data_def strip_def is_space_def names_RobotModeData_30_def
        get_data_loop.simps calcsize_def split: if_splits)

lemma robot_mode_fields_32:
  assumes "get_data pd ''!IBQ???????BBdd'' names_RobotModeData_32 = Inr r"
  shows "has_health_fields r"
  using assms unfolding has_health_fields_def
  by (auto simp: get_data_def strip_def is_space_def names_RobotModeData_32_def
        names_RobotModeData_30_def get_data_loop.simps calcsize_def split: if_splits)

lemma robot_mode_fields_35:
  assumes "get_data pd ''!IBQ???????BBddc'' names_RobotModeData_35 = Inr r"
  shows "has_health_fields r"
  using assms unfolding has_health_fields_def
  by (auto simp: get_data_def strip_def is_space_def names_RobotModeData_35_def
        names_RobotModeData_30_def get_data_loop.simps calcsize_def split: if_splits)

lemma robot_mode_fields_legacy:
  assumes "get_data pd ''!iBQ???????Bd'' names_RobotModeData_legacy = Inr r"
  shows "has_health_fields r"
  using assms unfolding has_health_fields_def
  by (auto simp: get_data_def strip_def is_space_def names_RobotModeData_legacy_def
        get_data_loop.simps calcsize_def split: if_splits)

lemma parse_packet_other_keeps_robot_mode:
  assumes "parse_packet v a ps pt pd = (v', Inr a')" and "pt \<noteq> 0"
  shows "map_of a' ''RobotModeData'' = map_of a ''RobotModeData''"
  using assms
  by (auto simp: parse_packet_def split: if_splits
           dest: map_of_store[where k = "''RobotModeData''"]
                 parse_message_keeps[where k = "''RobotModeData''"])

lemma parse_packet_robot_mode_record:
  assumes pp: "parse_packet v a ps pt pd = (v', Inr a')"
    and new: "map_of a' ''RobotModeData'' = Some r"
    and old: "map_of a ''RobotModeData'' \<noteq> Some r"
  shows "has_health_fields r"
proof (cases "pt = 0")
  case True
  from pp True new show ?thesis
    by (auto simp: parse_packet_def store_def update_conv' split: if_splits sum.splits
             intro: robot_mode_fields_30 robot_mode_fields_32 robot_mode_fields_35
                    robot_mode_fields_legacy)
next
  case False
  from parse_packet_other_keeps_robot_mode[OF pp False] new old show ?thesis by simp
qed

lemma parse_robot_mode_record:
  assumes "parse v data = (v', Inr batch)" and "map_of batch ''RobotModeData'' = Some r"
  shows "has_health_fields r"
proof -
  let ?I = "\<lambda>(u::version) (a::alldata).
              \<forall>r. map_of a ''RobotModeData'' = Some r \<longrightarrow> has_health_fields r"
  have "?I v' batch"
  proof (rule parse_loop_invariant[where I = ?I and v = v and a = "[]" and data = data])
    fix u a ps pt pd u' a'
    assume I: "?I u a" and pp: "parse_packet u a ps pt pd = (u', Inr a')"
    show "?I u' a'"
    proof (intro allI impI)
      fix r assume new: "map_of a' ''RobotModeData'' = Some r"
      show "has_health_fields r"
      proof (cases "map_of a ''RobotModeData'' = Some r")
        case True
        with I show ?thesis by blast
      next
        case False
        with pp new show ?thesis by (rule parse_packet_robot_mode_record)
      qed
    qed
  next
    show "?I v []" by simp
  next
    show "parse_loop v [] data = (v', Inr batch)" using assms(1) by (simp add: parse_def)
  qed
  with assms(2) show ?thesis by blast
qed

lemma check_if_running_returns:
  assumes "map_of (dict st) ''RobotModeData'' = Some r" and "has_health_fields r"
  shows "\<exists>b. check_if_running st rmode = Inr b"
  using assms
  by (auto simp: check_if_running_def and_then_def field_is_def field_def has_health_fields_def)

text \<open>
  Claim C4, amended: in every iteration whose frame decodes without an exception, the
  iteration ends normally and the state dictionary is replaced by the freshly decoded
  batch, whether or not the batch holds RobotModeData. If the batch lacks RobotModeData
  the loop continues at once: the timestamp and the running flag stay as they were and no
  waiter is notified. If it holds RobotModeData, the timestamp is set and the waiters are
  notified once.
\<close>

theorem run_replaces_dict_after_every_decode:
  assumes got: "monitor_get_data recvs (dataqueue (drain_queue st)) = Some (data, rest, recvs')"
    and ok: "parse (parser_version st) data = (v, Inr batch)"
  shows "\<exists>st'. run_iteration now recvs st = Some (Inr (st', recvs'))
           \<and> dict st' = batch
           \<and> (map_of batch ''RobotModeData'' = None \<longrightarrow>
                 running st' = running st
                 \<and> lastpacket_timestamp st' = lastpacket_timestamp st
                 \<and> data_notified st' = data_notified st)
           \<and> (map_of batch ''RobotModeData'' \<noteq> None \<longrightarrow>
                 lastpacket_timestamp st' = now
                 \<and> data_notified st' = data_notified st + 1)"
proof -
  let ?s = "(drain_queue st)\<lparr>dataqueue := rest\<rparr>"
  let ?s1 = "?s\<lparr>parser_version := v, dict := batch\<rparr>"
  have it: "run_iteration now recvs st =
          Some (case run_body now data ?s of Inl e \<Rightarrow> Inl e | Inr st' \<Rightarrow> Inr (st', recvs'))"
    using got by (simp add: run_iteration_def Let_def)
  show ?thesis
  proof (cases "map_of batch ''RobotModeData''")
    case None
    then have "run_body now data ?s = Inr ?s1"
      by (simp add: run_body_def drain_queue_keeps ok Let_def)
    with it None show ?thesis by (simp add: drain_queue_keeps)
  next
    case (Some r)
    let ?s2 = "?s1\<lparr>lastpacket_timestamp := now\<rparr>"
    have h: "has_health_fields r" using parse_robot_mode_record[OF ok Some] .
    have "map_of (dict ?s2) ''RobotModeData'' = Some r" using Some by simp
    from check_if_running_returns[OF this h]
    obtain b where b: "check_if_running ?s2 (if v \<ge> (3, 0) then 7 else 0) = Inr b"
      by blast
    have "run_body now data ?s =
            Inr (?s2\<lparr>running := b, data_notified := data_notified ?s2 + 1\<rparr>)"
      using Some b by (simp add: run_body_def drain_queue_keeps ok Let_def)
    with it Some show ?thesis by (simp add: drain_queue_keeps)
  qed
qed


theorem run_replaces_dict_after_every_decode_witness:
  "monitor_get_data [[0,0,0,10,16, 0,0,0,5,9]]
       (dataqueue (drain_queue (init_monitor\<lparr>dict := [(''RobotModeData'', [])]\<rparr>)))
     = Some ([0,0,0,10,16, 0,0,0,5,9], [], [])
   \<and> parse (parser_version (init_monitor\<lparr>dict := [(''RobotModeData'', [])]\<rparr>))
            [0,0,0,10,16, 0,0,0,5,9]
     = ((0, 0), Inr [(''SecondaryClientData'', [(''size'', VInt 10), (''type'', VInt 16)])])
   \<and> (\<exists>st'. run_iteration 1 [[0,0,0,10,16, 0,0,0,5,9]]
               (init_monitor\<lparr>dict := [(''RobotModeData'', [])]\<rparr>) = Some (Inr (st', []))
           \<and> dict st' = [(''SecondaryClientData'', [(''size'', VInt 10), (''type'', VInt 16)])]
           \<and> lastpacket_timestamp st' = 0 \<and> data_notified st' = 0)
   \<and> monitor_get_data [[0,0,0,43,16, 0,0,0,38,0] @ replicate 33 0] (dataqueue (drain_queue init_monitor))
     = Some ([0,0,0,43,16, 0,0,0,38,0] @ replicate 33 0, [], [])
   \<and> (\<exists>batch st'. parse (parser_version init_monitor) ([0,0,0,43,16, 0,0,0,38,0] @ replicate 33 0)
             = ((3, 0), Inr batch)
           \<and> map_of batch ''RobotModeData'' \<noteq> None
           \<and> run_iteration 1 [[0,0,0,43,16, 0,0,0,38,0] @ replicate 33 0] init_monitor
               = Some (Inr (st', []))
           \<and> dict st' = batch \<and> lastpacket_timestamp st' = 1 \<and> data_notified st' = 1)"
proof -
  define st0 where "st0 = init_monitor\<lparr>dict := [(''RobotModeData'', [])]\<rparr>"
  define f1 where "f1 = [0,0,0,10,16, 0,0,0,5,9::byte]"
  define b1 where "b1 = [(''SecondaryClientData'', [(''size'', VInt 10), (''type'', VInt 16)])]"
  define f2 where "f2 = [0,0,0,43,16, 0,0,0,38,0] @ replicate 33 (0::byte)"
  have h1: "monitor_get_data [f1] (dataqueue (drain_queue st0)) = Some (f1, [], [])"
    unfolding st0_def f1_def by code_simp
  have h2: "parse (parser_version st0) f1 = ((0, 0), Inr b1)"
    unfolding st0_def f1_def b1_def by code_simp
  have n1: "map_of b1 ''RobotModeData'' = None" by (simp add: b1_def)
  have t0: "lastpacket_timestamp st0 = 0" "data_notified st0 = 0"
    by (simp_all add: st0_def init_monitor_def)
  obtain st1 where c1: "run_iteration 1 [f1] st0 = Some (Inr (st1, []))" "dict st1 = b1"
      "lastpacket_timestamp st1 = 0" "data_notified st1 = 0"
    using run_replaces_dict_after_every_decode[OF h1 h2, of 1] n1 t0 by auto
  have g1: "monitor_get_data [f2] (dataqueue (drain_queue init_monitor)) = Some (f2, [], [])"
    unfolding f2_def by code_simp
  have "fst (parse (parser_version init_monitor) f2) = (3, 0)
        \<and> (case snd (parse (parser_version init_monitor) f2) of
             Inl e \<Rightarrow> False | Inr batch \<Rightarrow> map_of batch ''RobotModeData'' \<noteq> None)"
    unfolding f2_def by code_simp
  then obtain b2 where g2: "parse (parser_version init_monitor) f2 = ((3, 0), Inr b2)"
    and n2: "map_of b2 ''RobotModeData'' \<noteq> None"
    by (cases "parse (parser_version init_monitor) f2") (auto split: sum.splits)
  have t1: "data_notified init_monitor = 0" by (simp add: init_monitor_def)
  obtain st2 where c2: "run_iteration 1 [f2] init_monitor = Some (Inr (st2, []))" "dict st2 = b2"
      "lastpacket_timestamp st2 = 1" "data_notified st2 = 1"
    using run_replaces_dict_after_every_decode[OF g1 g2, of 1] n2 t1 by auto
  have e1: "\<exists>st'. run_iteration 1 [f1] st0 = Some (Inr (st', []))
           \<and> dict st' = b1 \<and> lastpacket_timestamp st' = 0 \<and> data_notified st' = 0"
    using c1 by blast
  have e2: "\<exists>batch st'. parse (parser_version init_monitor) f2 = ((3, 0), Inr batch)
           \<and> map_of batch ''RobotModeData'' \<noteq> None
           \<and> run_iteration 1 [f2] init_monitor = Some (Inr (st', []))
           \<and> dict st' = batch \<and> lastpacket_timestamp st' = 1 \<and> data_notified st' = 1"
    using g2 n2 c2 by blast
  show ?thesis
    using h1 h2 e1 g1 e2 unfolding st0_def f1_def b1_def f2_def by (intro conjI)
qed

text \<open>
  Claim C4, as stated, fails: \<open>self._dict = tmpdict\<close> is executed before the test for
  RobotModeData. A batch without RobotModeData replaces a snapshot that had one.
\<close>

theorem run_replaces_dict_without_robot_mode_data_counterexample:
  "run_iteration 1 [[0,0,0,10,16, 0,0,0,5,9]]
      (init_monitor\<lparr>dict := [(''RobotModeData'', [(''robotMode'', VInt 7)])]\<rparr>)
     = Some (Inr (init_monitor\<lparr>dict :=
          [(''SecondaryClientData'', [(''size'', VInt 10), (''type'', VInt 16)])]\<rparr>, []))
   \<and> snd (parse (0, 0) [0,0,0,10,16, 0,0,0,5,9])
       = Inr [(''SecondaryClientData'', [(''size'', VInt 10), (''type'', VInt 16)])]
   \<and> map_of [(''SecondaryClientData'', [(''size'', VInt 10), (''type'', VInt 16)])]
        ''RobotModeData'' = None
   \<and> dict (init_monitor\<lparr>dict :=
          [(''SecondaryClientData'', [(''size'', VInt 10), (''type'', VInt 16)])]\<rparr>)
       \<noteq> dict (init_monitor\<lparr>dict := [(''RobotModeData'', [(''robotMode'', VInt 7)])]\<rparr>)"
  by code_simp

end
